theory Spec2Isabelle
  imports Complex_Main
begin

section \<open>Tensors and the TensorFlow operations the notebook calls\<close>

text \<open>
  A tensor is a nested list of reals: rank 2 is \<open>real list list\<close> (batch, token), rank 3
  is \<open>real list list list\<close> (batch, token, channel). Token and tag ids are Python and
  int32 integers, modelled as \<open>int\<close>. Arithmetic is over the reals, so the infinities
  and roundings of float32 are outside the model; the section on float32 values adds the
  infinities and not-a-number to the masked loss.

  A run of the session that TensorFlow rejects (an id outside the embedding matrix,
  operands whose shapes do not fit, a placeholder that was not fed) is the value
  \<open>Inl InvalidArgument\<close>; Python's own error on a division by zero is
  \<open>Inl ZeroDivisionError\<close>. A mean over no entries is not rejected by TensorFlow: it is
  the not-a-number value, here \<open>NaN\<close>.
\<close>

datatype error = InvalidArgument | ZeroDivisionError

datatype scalar = Num real | NaN

fun sequence :: "(error + 'a) list \<Rightarrow> error + 'a list" where
  "sequence [] = Inr []"
| "sequence (x # xs) =
     (case x of
        Inl e \<Rightarrow> Inl e
      | Inr v \<Rightarrow> (case sequence xs of Inl e \<Rightarrow> Inl e | Inr vs \<Rightarrow> Inr (v # vs)))"

text \<open>
  Elementwise operations broadcast: along one axis the two operands have the same
  length, or one of them has length one and is repeated.
\<close>

definition broadcast :: "('a \<Rightarrow> 'b \<Rightarrow> error + 'c) \<Rightarrow> 'a list \<Rightarrow> 'b list \<Rightarrow> error + 'c list" where
  "broadcast f xs ys =
     (if length xs = length ys then sequence (map2 f xs ys)
      else if length xs = 1 then sequence (map (f (hd xs)) ys)
      else if length ys = 1 then sequence (map (\<lambda>x. f x (hd ys)) xs)
      else Inl InvalidArgument)"

definition multiply :: "real list list \<Rightarrow> real list list \<Rightarrow> error + real list list" where
  "multiply = broadcast (broadcast (\<lambda>x y. Inr (x * y)))"

definition multiply3 :: "real list list list \<Rightarrow> real list list list \<Rightarrow> error + real list list list" where
  "multiply3 = broadcast (broadcast (broadcast (\<lambda>x y. Inr (x * y))))"

text \<open>\<open>tf.one_hot(indices, depth)\<close>: an index outside \<open>[0, depth)\<close> gives the zero vector.\<close>

definition one_hot_vec :: "int \<Rightarrow> nat \<Rightarrow> real list" where
  "one_hot_vec i depth = map (\<lambda>k. if int k = i then 1 else 0) [0..<depth]"

definition one_hot :: "int list list \<Rightarrow> nat \<Rightarrow> real list list list" where
  "one_hot indices depth = map (map (\<lambda>i. one_hot_vec i depth)) indices"

text \<open>
  \<open>tf.nn.softmax_cross_entropy_with_logits_v2(labels, logits)\<close>: at each position, minus the
  sum over the classes of the label's weight times the log-softmax of the logits. The
  model accepts labels and logits of one and the same shape only.
\<close>

definition log_softmax :: "real list \<Rightarrow> real list" where
  "log_softmax xs = map (\<lambda>x. x - ln (\<Sum>y\<leftarrow>xs. exp y)) xs"

definition cross_entropy :: "real list \<Rightarrow> real list \<Rightarrow> real" where
  "cross_entropy p xs = - (\<Sum>(pk, lk)\<leftarrow>zip p (log_softmax xs). pk * lk)"

definition softmax_cross_entropy_with_logits_v2 ::
    "real list list list \<Rightarrow> real list list list \<Rightarrow> error + real list list" where
  "softmax_cross_entropy_with_logits_v2 labels logits =
     (if map (map length) labels = map (map length) logits
      then Inr (map2 (map2 cross_entropy) labels logits)
      else Inl InvalidArgument)"

text \<open>\<open>tf.reduce_mean\<close> of a rank-2 tensor: the sum of all entries over their number.\<close>

definition reduce_mean :: "real list list \<Rightarrow> scalar" where
  "reduce_mean t =
     (if concat t = [] then NaN
      else Num (sum_list (concat t) / real (length (concat t))))"

section \<open>The masked loss\<close>

text \<open>
  \<^verbatim>\<open>
  def masked_cross_entropy(logits, label_indices, number_of_tags, mask):
      p = tf.one_hot(label_indices, depth=number_of_tags)
      loss_tensor = tf.nn.softmax_cross_entropy_with_logits_v2(labels=p, logits=logits)
      loss_tensor *= mask
      loss = tf.reduce_mean(loss_tensor)
      return loss
  \<close>
  The argument \<open>mask\<close> is written \<open>msk\<close>: \<open>mask\<close> is a constant of HOL.
\<close>

definition masked_cross_entropy ::
    "real list list list \<Rightarrow> int list list \<Rightarrow> nat \<Rightarrow> real list list \<Rightarrow> error + scalar" where
  "masked_cross_entropy logits label_indices number_of_tags msk =
     (let p = one_hot label_indices number_of_tags in
      case softmax_cross_entropy_with_logits_v2 p logits of
        Inl e \<Rightarrow> Inl e
      | Inr loss_tensor \<Rightarrow>
          (case multiply loss_tensor msk of
             Inl e \<Rightarrow> Inl e
           | Inr loss_tensor' \<Rightarrow> Inr (reduce_mean loss_tensor')))"

text \<open>
  The loss before the mask is applied (the notebook's cells that build \<open>loss_tensor\<close> from
  \<open>tf.one_hot\<close> and the cross-entropy and take \<open>tf.reduce_mean\<close> of it): the unmasked mean
  cross-entropy that the masked loss is compared with.
\<close>

definition mean_cross_entropy ::
    "real list list list \<Rightarrow> int list list \<Rightarrow> nat \<Rightarrow> error + scalar" where
  "mean_cross_entropy logits label_indices number_of_tags =
     (case softmax_cross_entropy_with_logits_v2 (one_hot label_indices number_of_tags) logits of
        Inl e \<Rightarrow> Inl e
      | Inr loss_tensor \<Rightarrow> Inr (reduce_mean loss_tensor))"

section \<open>The masked loss on float32 values\<close>

text \<open>
  The tensors of the code hold float32 values, and a float32 cross-entropy can be infinite
  or not a number (NaN or infinite logits, or an overflow on finite ones). A \<open>float32\<close>
  is a finite value, one of the two infinities, or \<open>NotNum\<close>. The operations follow IEEE 754
  on the special values: an infinity times zero and the sum of the two infinities are not
  a number, and not-a-number propagates. On finite values they are those of the reals
  (rounding and overflow of finite arithmetic are outside the model). The mask is fed
  with finite values.
\<close>

datatype float32 = Finite real | PlusInf | MinusInf | NotNum

fun is_finite :: "float32 \<Rightarrow> bool" where
  "is_finite (Finite x) = True"
| "is_finite PlusInf = False"
| "is_finite MinusInf = False"
| "is_finite NotNum = False"

fun times_float32 :: "float32 \<Rightarrow> real \<Rightarrow> float32" where
  "times_float32 (Finite x) m = Finite (x * m)"
| "times_float32 PlusInf m = (if m = 0 then NotNum else if 0 < m then PlusInf else MinusInf)"
| "times_float32 MinusInf m = (if m = 0 then NotNum else if 0 < m then MinusInf else PlusInf)"
| "times_float32 NotNum m = NotNum"

fun plus_float32 :: "float32 \<Rightarrow> float32 \<Rightarrow> float32" where
  "plus_float32 (Finite x) (Finite y) = Finite (x + y)"
| "plus_float32 NotNum b = NotNum"
| "plus_float32 a NotNum = NotNum"
| "plus_float32 PlusInf MinusInf = NotNum"
| "plus_float32 MinusInf PlusInf = NotNum"
| "plus_float32 PlusInf b = PlusInf"
| "plus_float32 a PlusInf = PlusInf"
| "plus_float32 MinusInf b = MinusInf"
| "plus_float32 a MinusInf = MinusInf"

fun divide_float32 :: "float32 \<Rightarrow> real \<Rightarrow> float32" where
  "divide_float32 (Finite x) n = Finite (x / n)"
| "divide_float32 PlusInf n = PlusInf"
| "divide_float32 MinusInf n = MinusInf"
| "divide_float32 NotNum n = NotNum"

text \<open>
  \<open>masked_cross_entropy\<close> once more, line by line, on float32 values. TensorFlow's kernel
  \<open>tf.nn.softmax_cross_entropy_with_logits_v2\<close> is the argument \<open>xent\<close>, so that nothing is
  assumed about where it returns a finite value; the logits have any type (\<open>lgts\<close>).
  \<open>finite_cross_entropy\<close> is the kernel of the real model, all of whose values are finite,
  and \<open>float32_of\<close> reads a result of the real model as a float32.
\<close>

definition multiply_float32 :: "float32 list list \<Rightarrow> real list list \<Rightarrow> error + float32 list list" where
  "multiply_float32 = broadcast (broadcast (\<lambda>x m. Inr (times_float32 x m)))"

definition reduce_mean_float32 :: "float32 list list \<Rightarrow> float32" where
  "reduce_mean_float32 t =
     (if concat t = [] then NotNum
      else divide_float32 (foldr plus_float32 (concat t) (Finite 0)) (real (length (concat t))))"

definition masked_cross_entropy_float32 ::
    "(real list list list \<Rightarrow> 'l \<Rightarrow> error + float32 list list)
     \<Rightarrow> 'l \<Rightarrow> int list list \<Rightarrow> nat \<Rightarrow> real list list \<Rightarrow> error + float32" where
  "masked_cross_entropy_float32 xent lgts label_indices number_of_tags msk =
     (let p = one_hot label_indices number_of_tags in
      case xent p lgts of
        Inl e \<Rightarrow> Inl e
      | Inr loss_tensor \<Rightarrow>
          (case multiply_float32 loss_tensor msk of
             Inl e \<Rightarrow> Inl e
           | Inr loss_tensor' \<Rightarrow> Inr (reduce_mean_float32 loss_tensor')))"

definition finite_cross_entropy ::
    "real list list list \<Rightarrow> real list list list \<Rightarrow> error + float32 list list" where
  "finite_cross_entropy labels lgts =
     (case softmax_cross_entropy_with_logits_v2 labels lgts of
        Inl e \<Rightarrow> Inl e
      | Inr t \<Rightarrow> Inr (map (map Finite) t))"

fun float32_of :: "scalar \<Rightarrow> float32" where
  "float32_of (Num r) = Finite r"
| "float32_of NaN = NotNum"

section \<open>Padding and masking\<close>

text \<open>
  Modelled from the spec: \<open>zero_pad\<close> and the \<open>Mask\<close> component behind \<open>get_mask\<close> are
  imported from the deeppavlov library, whose code is not in the repository. The spec's
  contract: the padded batch has shape \<open>[N, max_len]\<close>, \<open>max_len\<close> the longest input row,
  padded on the right with 0; the mask has the same shape, 1.0 at the real positions and
  0.0 at the padding, computed from the rows' lengths; no rows give an empty array.
\<close>

definition max_len :: "'a list list \<Rightarrow> nat" where
  "max_len batch = foldr max (map length batch) 0"

definition zero_pad :: "int list list \<Rightarrow> int list list" where
  "zero_pad batch = map (\<lambda>utterance. utterance @ replicate (max_len batch - length utterance) 0) batch"

definition get_mask :: "'a list list \<Rightarrow> real list list" where
  "get_mask tokens_batch =
     map (\<lambda>utterance. replicate (length utterance) 1
                       @ replicate (max_len tokens_batch - length utterance) 0) tokens_batch"

section \<open>Embeddings\<close>

text \<open>
  \<^verbatim>\<open>
  def get_embeddings(indices, vocabulary_size, emb_dim):
      # Initialize the random gaussian matrix with dimensions [vocabulary_size, embedding_dimension]
      # The **VARIANCE** of the random samples must be 1 / embedding_dimension
      emb_mat = tf.Variable(tf.random_normal(shape=[vocabulary_size, emb_dim],
                                            mean=0.0, stddev = 1.0 / emb_dim),
                                            trainable=True, dtype=tf.float32)
      emb = tf.nn.embedding_lookup(emb_mat, indices)
      return emb
  \<close>
  An id outside the matrix is rejected, as TensorFlow's CPU kernel does.
  The function does two things: it declares the variable with its initializer (when the
  graph is built), and it gathers rows of the variable's current value (when the graph
  runs). \<open>tf.random_normal\<close> is the record of its arguments; a sample of it is
  \<open>mean + stddev * z\<close> for a standard normal sample \<open>z\<close>, so its variance is the square
  of \<open>stddev\<close>. Python raises on \<open>1.0 / emb_dim\<close> when \<open>emb_dim\<close> is 0.
\<close>

record random_normal =
  shape :: "nat \<times> nat"
  mean :: real
  stddev :: real

definition sample :: "random_normal \<Rightarrow> (nat \<Rightarrow> nat \<Rightarrow> real) \<Rightarrow> real list list" where
  "sample init z =
     map (\<lambda>i. map (\<lambda>j. mean init + stddev init * z i j) [0..<snd (shape init)])
         [0..<fst (shape init)]"

definition variance :: "random_normal \<Rightarrow> real" where
  "variance init = (stddev init)\<^sup>2"

definition emb_mat_initializer :: "nat \<Rightarrow> nat \<Rightarrow> error + random_normal" where
  "emb_mat_initializer vocabulary_size emb_dim =
     (if emb_dim = 0 then Inl ZeroDivisionError
      else Inr \<lparr>shape = (vocabulary_size, emb_dim), mean = 0, stddev = 1 / real emb_dim\<rparr>)"

definition embedding_lookup :: "real list list \<Rightarrow> int list list \<Rightarrow> error + real list list list" where
  "embedding_lookup params ids =
     sequence (map (\<lambda>row. sequence (map (\<lambda>i.
        if 0 \<le> i \<and> i < int (length params) then Inr (params ! nat i)
        else Inl InvalidArgument) row)) ids)"

definition get_embeddings :: "real list list \<Rightarrow> int list list \<Rightarrow> error + real list list list" where
  "get_embeddings emb_mat indices = embedding_lookup emb_mat indices"

section \<open>Dropout\<close>

text \<open>
  \<open>tf.nn.dropout(x, keep_prob, noise_shape)\<close> draws a uniform tensor of \<open>noise_shape\<close>, adds
  \<open>keep_prob\<close>, takes the floor (a tensor of zeros and ones) and multiplies \<open>x / keep_prob\<close>
  by it, broadcasting. The generator's draws are an argument: \<open>rnd i j k\<close> is the draw for
  the entry \<open>(i, j, k)\<close> of the noise, a number in \<open>[0, 1)\<close>. A keep probability of 0 is
  outside the model: float32 divides by it to an infinity or to not-a-number, the reals of
  HOL to 0, and the results about dropout assume that it is not 0.
\<close>

definition random_uniform :: "nat \<times> nat \<times> nat \<Rightarrow> (nat \<Rightarrow> nat \<Rightarrow> nat \<Rightarrow> real) \<Rightarrow> real list list list" where
  "random_uniform noise_shape rnd =
     (case noise_shape of (a, b, c) \<Rightarrow>
        map (\<lambda>i. map (\<lambda>j. map (\<lambda>k. rnd i j k) [0..<c]) [0..<b]) [0..<a])"

definition dropout ::
    "real list list list \<Rightarrow> real \<Rightarrow> nat \<times> nat \<times> nat \<Rightarrow> (nat \<Rightarrow> nat \<Rightarrow> nat \<Rightarrow> real)
     \<Rightarrow> error + real list list list" where
  "dropout x keep_prob noise_shape rnd =
     (let random_tensor = map (map (map (\<lambda>u. keep_prob + u))) (random_uniform noise_shape rnd);
          binary_tensor = map (map (map (\<lambda>r. real_of_int \<lfloor>r\<rfloor>))) random_tensor
      in multiply3 (map (map (map (\<lambda>v. v / keep_prob))) x) binary_tensor)"

section \<open>The convolutional network\<close>

text \<open>
  \<open>tf.layers.conv1d(units, filters, kernel_size, padding='same')\<close> owns a kernel of shape
  \<open>[kernel_size, in_channels, filters]\<close> and a bias of shape \<open>[filters]\<close>. With stride one,
  "same" padding puts \<open>(kernel_size - 1) div 2\<close> zero rows before the tokens and the rest
  of the \<open>kernel_size - 1\<close> after them; the convolution then slides the kernel over every
  window of \<open>kernel_size\<close> rows of the padded sequence. TensorFlow builds no convolution
  of width 0, and the results about the number of tokens assume a positive width.
\<close>

record conv1d_vars =
  conv_kernel :: "real list list list"
  conv_bias :: "real list"

fun pad_same :: "nat \<Rightarrow> real list list \<Rightarrow> real list list" where
  "pad_same kernel_size [] = []"
| "pad_same kernel_size (r # rs) =
     (let z = replicate (length r) 0
      in replicate ((kernel_size - 1) div 2) z @ (r # rs)
         @ replicate (kernel_size - 1 - (kernel_size - 1) div 2) z)"

definition conv1d_example :: "conv1d_vars \<Rightarrow> nat \<Rightarrow> nat \<Rightarrow> real list list \<Rightarrow> real list list" where
  "conv1d_example v filters kernel_size x =
     (let xp = pad_same kernel_size x in
      map (\<lambda>t. map (\<lambda>f.
             (\<Sum>j\<leftarrow>[0..<kernel_size]. \<Sum>(xc, kc)\<leftarrow>zip (xp ! (t + j)) (conv_kernel v ! j). xc * kc ! f)
             + conv_bias v ! f) [0..<filters])
          [0..<length xp + 1 - kernel_size])"

definition conv1d :: "conv1d_vars \<Rightarrow> real list list list \<Rightarrow> nat \<Rightarrow> nat \<Rightarrow> real list list list" where
  "conv1d v inputs filters kernel_size = map (conv1d_example v filters kernel_size) inputs"

definition relu :: "real list list list \<Rightarrow> real list list list" where
  "relu = map (map (map (max 0)))"

text \<open>
  \<^verbatim>\<open>
  def conv_net(units, n_hidden_list, cnn_filter_width, activation=tf.nn.relu):
      for i in n_hidden_list:
          units = tf.layers.conv1d(units, filters=i, kernel_size=cnn_filter_width,
                                   padding='same')
          units = activation(units)
      return units
  \<close>
  Each pass of the loop creates a layer with variables of its own: \<open>layers l\<close> are the
  variables of the layer numbered \<open>l\<close>, and the loop counts the layers from \<open>l\<close>.
\<close>

fun conv_net ::
    "(nat \<Rightarrow> conv1d_vars) \<Rightarrow> nat \<Rightarrow> real list list list \<Rightarrow> nat list \<Rightarrow> nat
     \<Rightarrow> (real list list list \<Rightarrow> real list list list) \<Rightarrow> real list list list" where
  "conv_net layers l units [] cnn_filter_width activation = units"
| "conv_net layers l units (i # n_hidden_list) cnn_filter_width activation =
     conv_net layers (Suc l) (activation (conv1d (layers l) units i cnn_filter_width))
       n_hidden_list cnn_filter_width activation"

text \<open>\<open>tf.layers.dense(units, n_tags, activation=None)\<close>: a kernel \<open>[in, n_tags]\<close> and a bias.\<close>

record dense_vars =
  dense_kernel :: "real list list"
  dense_bias :: "real list"

definition dense :: "dense_vars \<Rightarrow> real list list list \<Rightarrow> nat \<Rightarrow> real list list list" where
  "dense v inputs units =
     map (map (\<lambda>x. map (\<lambda>f. (\<Sum>(xc, kc)\<leftarrow>zip x (dense_kernel v). xc * kc ! f) + dense_bias v ! f)
                        [0..<units])) inputs"

text \<open>\<open>tf.argmax(logits, 2)\<close>: the first index of a largest entry; no entries are rejected.\<close>

fun argmax_from :: "nat \<Rightarrow> nat \<Rightarrow> real \<Rightarrow> real list \<Rightarrow> nat" where
  "argmax_from i best v [] = best"
| "argmax_from i best v (x # xs) =
     (if v < x then argmax_from (Suc i) i x xs else argmax_from (Suc i) best v xs)"

definition argmax_vec :: "real list \<Rightarrow> error + int" where
  "argmax_vec xs =
     (case xs of [] \<Rightarrow> Inl InvalidArgument | x # rest \<Rightarrow> Inr (int (argmax_from 1 0 x rest)))"

definition argmax :: "real list list list \<Rightarrow> error + int list list" where
  "argmax t = sequence (map (\<lambda>row. sequence (map argmax_vec row)) t)"

section \<open>The class NerNetwork\<close>

text \<open>
  The object holds the architecture that \<open>__init__\<close> receives and the session, which holds
  the current values of the trainable variables (the embedding matrix, the kernels and
  biases of the convolutions, and the final projection) and the state of the optimizer.
  The keyword arguments \<open>use_batch_norm\<close>, \<open>embeddings_dropout\<close> and \<open>top_dropout\<close> are
  not read by \<open>__init__\<close> and have no field.
\<close>

record variables =
  emb_mat :: "real list list"
  conv_layers :: "nat \<Rightarrow> conv1d_vars"
  dense_layer :: dense_vars

record session =
  vars :: variables
  adam_m :: variables
  adam_v :: variables
  beta1_power :: real
  beta2_power :: real

record NerNetwork =
  n_tokens :: nat
  n_tags :: nat
  token_emb_dim :: nat
  n_hidden_list :: "nat list"
  cnn_filter_width :: nat
  sess :: session

text \<open>
  A feed dictionary gives values to some of the five placeholders of \<open>__init__\<close>; running
  a tensor that reads a placeholder without a value is rejected.
\<close>

record feed_dict =
  learning_rate_ph :: "real option"
  dropout_keep_ph :: "real option"
  token_ph :: "int list list option"
  mask_ph :: "real list list option"
  y_ph :: "int list list option"

definition placeholder :: "'a option \<Rightarrow> error + 'a" where
  "placeholder v = (case v of None \<Rightarrow> Inl InvalidArgument | Some a \<Rightarrow> Inr a)"

definition and_then :: "error + 'a \<Rightarrow> ('a \<Rightarrow> error + 'b) \<Rightarrow> error + 'b" where
  "and_then r f = (case r of Inl e \<Rightarrow> Inl e | Inr a \<Rightarrow> f a)"

text \<open>The two dropout operations of the graph draw their noise independently.\<close>

record noise =
  emb_noise :: "nat \<Rightarrow> nat \<Rightarrow> nat \<Rightarrow> real"
  units_noise :: "nat \<Rightarrow> nat \<Rightarrow> nat \<Rightarrow> real"

text \<open>
  The tensors of the graph, as functions of the variables' values, the feed and the noise:
  \<^verbatim>\<open>
  emb = get_embeddings(self.token_ph, n_tokens, token_emb_dim)
  emb = tf.nn.dropout(emb, self.dropout_keep_ph, (tf.shape(emb)[0], 1, tf.shape(emb)[2]))
  units = conv_net(emb, n_hidden_list, cnn_filter_width, activation=tf.nn.relu)
  units = tf.nn.dropout(units, self.dropout_keep_ph, (tf.shape(units)[0], 1, tf.shape(units)[2]))
  logits = tf.layers.dense(units, n_tags, activation=None)
  self.predictions = tf.argmax(logits, 2)
  self.loss = masked_cross_entropy(logits, self.token_ph, n_tags, self.mask_ph)
  \<close>
  The channel dimension \<open>tf.shape(_)[2]\<close> is fixed when the graph is built: the embedding
  dimension for \<open>emb\<close>, and for \<open>units\<close> the width of the last convolution (the embedding
  dimension when there is none).
\<close>

definition logits :: "NerNetwork \<Rightarrow> variables \<Rightarrow> feed_dict \<Rightarrow> noise \<Rightarrow> error + real list list list" where
  "logits net w feed rnd =
     and_then (placeholder (token_ph feed)) (\<lambda>tok.
     and_then (get_embeddings (emb_mat w) tok) (\<lambda>emb.
     and_then (placeholder (dropout_keep_ph feed)) (\<lambda>keep.
     and_then (dropout emb keep (length emb, 1, token_emb_dim net) (emb_noise rnd)) (\<lambda>emb'.
     let units = conv_net (conv_layers w) 0 emb' (n_hidden_list net) (cnn_filter_width net) relu in
     and_then (dropout units keep (length units, 1, last (token_emb_dim net # n_hidden_list net))
                 (units_noise rnd)) (\<lambda>units'.
     Inr (dense (dense_layer w) units' (n_tags net)))))))"

definition predictions :: "NerNetwork \<Rightarrow> variables \<Rightarrow> feed_dict \<Rightarrow> noise \<Rightarrow> error + int list list" where
  "predictions net w feed rnd = and_then (logits net w feed rnd) argmax"

definition loss :: "NerNetwork \<Rightarrow> variables \<Rightarrow> feed_dict \<Rightarrow> noise \<Rightarrow> error + scalar" where
  "loss net w feed rnd =
     and_then (logits net w feed rnd) (\<lambda>lg.
     and_then (placeholder (token_ph feed)) (\<lambda>tok.
     and_then (placeholder (mask_ph feed)) (\<lambda>m.
     masked_cross_entropy lg tok (n_tags net) m)))"

text \<open>
  \<^verbatim>\<open>
  opt = tf.train.AdamOptimizer()
  self.train_op = opt.minimize(self.loss)
  \<close>
  \<open>tf.train.AdamOptimizer()\<close> with no argument has the learning rate 0.001, the decay
  rates 0.9 and 0.999 and epsilon 1e-08. One step on the gradient \<open>g\<close> moves every entry of
  every variable:
  \<open>lr_t = learning_rate * sqrt (1 - beta2_power) / (1 - beta1_power)\<close>,
  \<open>m := beta1 * m + (1 - beta1) * g\<close>, \<open>v := beta2 * v + (1 - beta2) * g * g\<close>,
  \<open>variable := variable - lr_t * m / (sqrt v + epsilon)\<close>, and the two powers are then
  multiplied by their rates.
\<close>

record adam =
  learning_rate :: real
  beta1 :: real
  beta2 :: real
  epsilon :: real

definition AdamOptimizer :: adam where
  "AdamOptimizer = \<lparr>learning_rate = 1 / 1000, beta1 = 9 / 10, beta2 = 999 / 1000, epsilon = 1 / 10 ^ 8\<rparr>"

definition zip_conv1d_vars :: "(real \<Rightarrow> real \<Rightarrow> real) \<Rightarrow> conv1d_vars \<Rightarrow> conv1d_vars \<Rightarrow> conv1d_vars" where
  "zip_conv1d_vars f a b =
     \<lparr>conv_kernel = map2 (map2 (map2 f)) (conv_kernel a) (conv_kernel b),
      conv_bias = map2 f (conv_bias a) (conv_bias b)\<rparr>"

definition zip_variables :: "(real \<Rightarrow> real \<Rightarrow> real) \<Rightarrow> variables \<Rightarrow> variables \<Rightarrow> variables" where
  "zip_variables f a b =
     \<lparr>emb_mat = map2 (map2 f) (emb_mat a) (emb_mat b),
      conv_layers = (\<lambda>l. zip_conv1d_vars f (conv_layers a l) (conv_layers b l)),
      dense_layer =
        \<lparr>dense_kernel = map2 (map2 f) (dense_kernel (dense_layer a)) (dense_kernel (dense_layer b)),
         dense_bias = map2 f (dense_bias (dense_layer a)) (dense_bias (dense_layer b))\<rparr>\<rparr>"

definition apply_gradients :: "adam \<Rightarrow> variables \<Rightarrow> session \<Rightarrow> session" where
  "apply_gradients opt g s =
     (let lr_t = learning_rate opt * sqrt (1 - beta2_power s) / (1 - beta1_power s);
          m_t = zip_variables (\<lambda>m gr. beta1 opt * m + (1 - beta1 opt) * gr) (adam_m s) g;
          v_t = zip_variables (\<lambda>v gr. beta2 opt * v + (1 - beta2 opt) * gr * gr) (adam_v s) g;
          step = zip_variables (\<lambda>m v. lr_t * m / (sqrt v + epsilon opt)) m_t v_t
      in \<lparr>vars = zip_variables (-) (vars s) step,
          adam_m = m_t,
          adam_v = v_t,
          beta1_power = beta1_power s * beta1 opt,
          beta2_power = beta2_power s * beta2 opt\<rparr>)"

text \<open>
  \<open>minimize\<close> differentiates the loss in the variables and applies the step. TensorFlow's
  differentiation is the argument \<open>gradients\<close>: it receives the loss as a function of the
  variables and the point, and returns the gradient, one entry for each entry of the
  variables. A run that is rejected changes nothing.
\<close>

definition train_op ::
    "((variables \<Rightarrow> error + scalar) \<Rightarrow> variables \<Rightarrow> variables)
     \<Rightarrow> NerNetwork \<Rightarrow> feed_dict \<Rightarrow> noise \<Rightarrow> error + session" where
  "train_op gradients net feed rnd =
     (case loss net (vars (sess net)) feed rnd of
        Inl e \<Rightarrow> Inl e
      | Inr _ \<Rightarrow>
          Inr (apply_gradients AdamOptimizer
                 (gradients (\<lambda>w. loss net w feed rnd) (vars (sess net))) (sess net)))"

text \<open>
  \<^verbatim>\<open>
  def __call__(self, tok_batch, mask_batch):
      feed_dict = {self.token_ph: tok_batch,
                   self.mask_ph: mask_batch,
                   self.dropout_keep_ph: 1.0}
      return self.sess.run(self.predictions, feed_dict)

  def train_on_batch(self, tok_batch, tag_batch, mask_batch, dropout_keep_prob, learning_rate):
      feed_dict = {self.token_ph: tok_batch,
                   self.y_ph: tag_batch,
                   self.mask_ph: mask_batch,
                   self.dropout_keep_ph: dropout_keep_prob,
                   self.learning_rate_ph: learning_rate}
      self.sess.run(self.train_op, feed_dict)
  \<close>
  \<open>__call__\<close> is \<open>call\<close>, and \<open>train_on_batch\<close> returns the object with its session
  updated. Both draw the noise of the two dropout operations, the argument \<open>rnd\<close>. The
  argument \<open>learning_rate\<close> is written \<open>learning_rate'\<close>: \<open>learning_rate\<close> is the field of
  the optimizer.
\<close>

definition call_feed :: "int list list \<Rightarrow> real list list \<Rightarrow> feed_dict" where
  "call_feed tok_batch mask_batch =
     \<lparr>learning_rate_ph = None, dropout_keep_ph = Some 1, token_ph = Some tok_batch,
      mask_ph = Some mask_batch, y_ph = None\<rparr>"

definition call :: "NerNetwork \<Rightarrow> int list list \<Rightarrow> real list list \<Rightarrow> noise \<Rightarrow> error + int list list" where
  "call net tok_batch mask_batch rnd =
     predictions net (vars (sess net)) (call_feed tok_batch mask_batch) rnd"

definition train_feed ::
    "int list list \<Rightarrow> int list list \<Rightarrow> real list list \<Rightarrow> real \<Rightarrow> real \<Rightarrow> feed_dict" where
  "train_feed tok_batch tag_batch mask_batch dropout_keep_prob learning_rate' =
     \<lparr>learning_rate_ph = Some learning_rate', dropout_keep_ph = Some dropout_keep_prob,
      token_ph = Some tok_batch, mask_ph = Some mask_batch, y_ph = Some tag_batch\<rparr>"

definition train_on_batch ::
    "((variables \<Rightarrow> error + scalar) \<Rightarrow> variables \<Rightarrow> variables)
     \<Rightarrow> NerNetwork \<Rightarrow> int list list \<Rightarrow> int list list \<Rightarrow> real list list \<Rightarrow> real \<Rightarrow> real \<Rightarrow> noise
     \<Rightarrow> error + NerNetwork" where
  "train_on_batch gradients net tok_batch tag_batch mask_batch dropout_keep_prob learning_rate' rnd =
     (case train_op gradients net
             (train_feed tok_batch tag_batch mask_batch dropout_keep_prob learning_rate') rnd of
        Inl e \<Rightarrow> Inl e
      | Inr s \<Rightarrow> Inr (net\<lparr>sess := s\<rparr>))"

text \<open>
  Dropout as the spec words it, to compare \<open>dropout\<close> with: one mask for each example,
  repeated over the token positions, with the channel dimension kept. The factor of the
  entry \<open>(n, t, c)\<close> is drawn for the example \<open>n\<close> and the channel \<open>c\<close>.
\<close>

definition per_example_dropout ::
    "real \<Rightarrow> (nat \<Rightarrow> nat \<Rightarrow> nat \<Rightarrow> real) \<Rightarrow> nat \<Rightarrow> real list list list \<Rightarrow> real list list list" where
  "per_example_dropout keep_prob draws C x =
     map (\<lambda>n. map (\<lambda>xt. map (\<lambda>c. xt ! c / keep_prob * real_of_int \<lfloor>keep_prob + draws n 0 c\<rfloor>)
                          [0..<C]) (x ! n)) [0..<length x]"

text \<open>
  The loss that a training step on a batch minimizes, as a function of the variables: the
  tensor \<open>self.loss\<close> with the values that \<open>train_on_batch\<close> feeds for the tokens, the mask
  and the keep probability.
\<close>

definition training_loss ::
    "NerNetwork \<Rightarrow> int list list \<Rightarrow> real list list \<Rightarrow> real \<Rightarrow> noise \<Rightarrow> variables \<Rightarrow> error + scalar" where
  "training_loss net tok_batch mask_batch keep rnd w =
     and_then (get_embeddings (emb_mat w) tok_batch) (\<lambda>emb.
     and_then (dropout emb keep (length emb, 1, token_emb_dim net) (emb_noise rnd)) (\<lambda>emb'.
     let units = conv_net (conv_layers w) 0 emb' (n_hidden_list net) (cnn_filter_width net) relu in
     and_then (dropout units keep (length units, 1, last (token_emb_dim net # n_hidden_list net))
                 (units_noise rnd)) (\<lambda>units'.
     masked_cross_entropy (dense (dense_layer w) units' (n_tags net)) tok_batch (n_tags net)
       mask_batch)))"

text \<open>
  The forward pass with dropout disabled, which the prediction entry point is compared
  with: the embeddings go to the convolutions and their output to the projection.
\<close>

definition no_dropout_logits :: "NerNetwork \<Rightarrow> variables \<Rightarrow> int list list \<Rightarrow> error + real list list list" where
  "no_dropout_logits net w tok_batch =
     and_then (get_embeddings (emb_mat w) tok_batch) (\<lambda>emb.
     Inr (dense (dense_layer w)
            (conv_net (conv_layers w) 0 emb (n_hidden_list net) (cnn_filter_width net) relu)
            (n_tags net)))"

text \<open>A rank-3 tensor of shape \<open>[N, T, C]\<close>.\<close>

definition has_shape :: "nat \<Rightarrow> nat \<Rightarrow> nat \<Rightarrow> real list list list \<Rightarrow> bool" where
  "has_shape N T C t =
     (length t = N \<and> list_all (\<lambda>row. length row = T \<and> list_all (\<lambda>v. length v = C) row) t)"

text \<open>
  A network small enough to run by hand: two tokens, two tags, embeddings of dimension
  one that are all zero, no convolution, and a projection with the bias \<open>[0, 1]\<close>, so that
  the logits of every token are \<open>[0, 1]\<close>. \<open>no_noise\<close> is the generator that always draws 0.
\<close>

definition example_variables :: "real \<Rightarrow> variables" where
  "example_variables b =
     \<lparr>emb_mat = [[0], [0]],
      conv_layers = (\<lambda>l. \<lparr>conv_kernel = [], conv_bias = []\<rparr>),
      dense_layer = \<lparr>dense_kernel = [[0, 0]], dense_bias = [0, b]\<rparr>\<rparr>"

definition example_net :: NerNetwork where
  "example_net =
     \<lparr>n_tokens = 2, n_tags = 2, token_emb_dim = 1, n_hidden_list = [], cnn_filter_width = 7,
      sess = \<lparr>vars = example_variables 1, adam_m = example_variables 0,
              adam_v = example_variables 0, beta1_power = 9 / 10, beta2_power = 999 / 1000\<rparr>\<rparr>"

text \<open>
  A second small network, with one convolution of two filters and width three over
  embeddings of dimension one, and the identity as its projection.
\<close>

definition example_conv_variables :: variables where
  "example_conv_variables =
     \<lparr>emb_mat = [[1], [2]],
      conv_layers = (\<lambda>l. \<lparr>conv_kernel = [[[1, 0]], [[0, 1]], [[1, 1]]], conv_bias = [0, 0]\<rparr>),
      dense_layer = \<lparr>dense_kernel = [[1, 0], [0, 1]], dense_bias = [0, 0]\<rparr>\<rparr>"

definition example_conv_net :: NerNetwork where
  "example_conv_net =
     \<lparr>n_tokens = 2, n_tags = 2, token_emb_dim = 1, n_hidden_list = [2], cnn_filter_width = 3,
      sess = \<lparr>vars = example_conv_variables,
              adam_m = zip_variables (\<lambda>a b. 0) example_conv_variables example_conv_variables,
              adam_v = zip_variables (\<lambda>a b. 0) example_conv_variables example_conv_variables,
              beta1_power = 9 / 10, beta2_power = 999 / 1000\<rparr>\<rparr>"

definition no_noise :: noise where
  "no_noise = \<lparr>emb_noise = (\<lambda>i j k. 0), units_noise = (\<lambda>i j k. 0)\<rparr>"

text \<open>
  A noise that keeps every channel of the embeddings at the keep probability one half,
  and keeps the first channel of the convolutions' output and drops the others.
\<close>

definition example_noise :: noise where
  "example_noise =
     \<lparr>emb_noise = (\<lambda>i j k. 1 / 2), units_noise = (\<lambda>i j k. if k = 0 then 3 / 4 else 1 / 4)\<rparr>"

section \<open>The evaluator\<close>

text \<open>
  \<^verbatim>\<open>
  def eval_valid(network, batch_generator):
      total_true = []
      total_pred = []
      for x, y_true in batch_generator:
          x_inds = token_vocab(x)
          x_batch = zero_pad(x_inds)
          mask = get_mask(x)
          y_inds = network(x_batch, mask)
          y_inds = [y_[:len(x_)] for x_, y_ in zip(*[x, y_inds])]
          y_pred = tag_vocab(y_inds)
          total_true.extend(chain(*y_true))
          total_pred.extend(chain(*y_pred))
      res = precision_recall_f1(total_true, total_pred, print_results=True)
  \<close>
  The vocabularies and \<open>precision_recall_f1\<close> come from the deeppavlov library and are
  arguments: \<open>token_vocab\<close> maps a token to its id, \<open>tag_vocab\<close> maps a tag id to its tag
  (both are applied to every entry of a batch), and \<open>precision_recall_f1\<close> maps the two
  accumulated tag sequences to the report that the function prints. The loop is
  \<open>eval_valid_loop\<close>, with the two accumulators as its state; \<open>x_\<close> and \<open>y_\<close> are
  written \<open>x'\<close> and \<open>y'\<close>.
\<close>

fun eval_valid_loop ::
    "(int list list \<Rightarrow> real list list \<Rightarrow> error + int list list) \<Rightarrow> (string \<Rightarrow> int) \<Rightarrow> (int \<Rightarrow> string)
     \<Rightarrow> (string list list \<times> string list list) list \<Rightarrow> string list \<times> string list
     \<Rightarrow> error + string list \<times> string list" where
  "eval_valid_loop network token_vocab tag_vocab [] (total_true, total_pred) =
     Inr (total_true, total_pred)"
| "eval_valid_loop network token_vocab tag_vocab ((x, y_true) # batch_generator) (total_true, total_pred) =
     (let x_inds = map (map token_vocab) x;
          x_batch = zero_pad x_inds;
          msk = get_mask x
      in case network x_batch msk of
           Inl e \<Rightarrow> Inl e
         | Inr y_inds \<Rightarrow>
             (let y_inds' = map (\<lambda>(x', y'). take (length x') y') (zip x y_inds);
                  y_pred = map (map tag_vocab) y_inds'
              in eval_valid_loop network token_vocab tag_vocab batch_generator
                   (total_true @ concat y_true, total_pred @ concat y_pred)))"

definition eval_valid ::
    "(int list list \<Rightarrow> real list list \<Rightarrow> error + int list list) \<Rightarrow> (string \<Rightarrow> int) \<Rightarrow> (int \<Rightarrow> string)
     \<Rightarrow> (string list \<Rightarrow> string list \<Rightarrow> 'r)
     \<Rightarrow> (string list list \<times> string list list) list \<Rightarrow> error + 'r" where
  "eval_valid network token_vocab tag_vocab precision_recall_f1 batch_generator =
     (case eval_valid_loop network token_vocab tag_vocab batch_generator ([], []) of
        Inl e \<Rightarrow> Inl e
      | Inr (total_true, total_pred) \<Rightarrow> Inr (precision_recall_f1 total_true total_pred))"

section \<open>Broadcasting on operands of one shape\<close>

lemma sequence_map_Inr: "sequence (map (\<lambda>x. Inr (f x)) xs) = Inr (map f xs)"
  by (induction xs) simp_all

lemma broadcast_same_length:
  "length xs = length ys \<Longrightarrow> broadcast f xs ys = sequence (map2 f xs ys)"
  by (simp add: broadcast_def)

lemma broadcast_mult_same:
  "length xs = length ys \<Longrightarrow>
   broadcast (\<lambda>x y. Inr (x * y)) xs ys = Inr (map2 (*) xs (ys :: real list))"
proof -
  assume "length xs = length ys"
  then have "broadcast (\<lambda>x y. Inr (x * y)) xs ys
      = sequence (map (\<lambda>p. Inr (fst p * snd p)) (zip xs ys))"
    by (simp add: broadcast_same_length case_prod_unfold)
  also have "\<dots> = Inr (map (\<lambda>p. fst p * snd p) (zip xs ys))"
    by (rule sequence_map_Inr)
  finally show ?thesis by (simp add: case_prod_unfold)
qed

lemma sequence_rows_same:
  "map length a = map length b \<Longrightarrow>
   sequence (map2 (broadcast (\<lambda>x y. Inr (x * y))) a b) = Inr (map2 (map2 (*)) a (b :: real list list))"
proof (induction a arbitrary: b)
  case Nil
  then show ?case by simp
next
  case (Cons r a)
  then obtain s b' where b: "b = s # b'" by (cases b) auto
  with Cons.prems have len: "length r = length s" and rest: "map length a = map length b'"
    by simp_all
  show ?case
    by (simp add: b broadcast_mult_same [OF len] Cons.IH [OF rest])
qed

lemma multiply_same_shape:
  "map length a = map length b \<Longrightarrow> multiply a b = Inr (map2 (map2 (*)) a b)"
proof -
  assume sh: "map length a = map length b"
  then have "length a = length b" by (metis length_map)
  then show ?thesis
    by (simp add: multiply_def broadcast_same_length sequence_rows_same [OF sh])
qed

section \<open>The masked loss is a mean over all entries\<close>

lemma one_hot_shape:
  "map (map length) (one_hot label_indices n) = map (map (\<lambda>_. n)) label_indices"
  by (simp add: one_hot_def one_hot_vec_def comp_def)

lemma map2_rows_length:
  "map (map length) p = map (map length) lg \<Longrightarrow> map length (map2 (map2 f) p lg) = map length p"
proof (induction p arbitrary: lg)
  case Nil
  then show ?case by simp
next
  case (Cons r p)
  then obtain s lg' where lg: "lg = s # lg'" by (cases lg) auto
  with Cons.prems have "length r = length s" "map (map length) p = map (map length) lg'"
    by (auto dest: arg_cong [where f = length])
  with Cons.IH show ?case by (simp add: lg)
qed

lemma loss_tensor_shape:
  "softmax_cross_entropy_with_logits_v2 (one_hot label_indices n) lg = Inr t \<Longrightarrow>
   map length t = map length label_indices"
proof -
  assume a: "softmax_cross_entropy_with_logits_v2 (one_hot label_indices n) lg = Inr t"
  then have sh: "map (map length) (one_hot label_indices n) = map (map length) lg"
    and t: "t = map2 (map2 cross_entropy) (one_hot label_indices n) lg"
    by (auto simp: softmax_cross_entropy_with_logits_v2_def split: if_splits)
  have "map length t = map length (one_hot label_indices n)"
    unfolding t by (rule map2_rows_length [OF sh])
  then show ?thesis by (simp add: one_hot_def comp_def)
qed

lemma mult_ones:
  "map length t = map length msk \<Longrightarrow> list_all (list_all (\<lambda>m. m = 1)) msk \<Longrightarrow>
   map2 (map2 (*)) t msk = (t :: real list list)"
proof (induction t arbitrary: msk)
  case Nil
  then show ?case by simp
next
  case (Cons r t)
  then obtain s msk' where m: "msk = s # msk'" by (cases msk) auto
  with Cons.prems have len: "length r = length s" and ones: "list_all (\<lambda>m. m = 1) s"
    and rest: "map length t = map length msk'" "list_all (list_all (\<lambda>m. m = 1)) msk'"
    by simp_all
  from len ones have "map2 (*) r s = r"
    by (induction r s rule: list_induct2) simp_all
  with Cons.IH [OF rest] show ?case by (simp add: m)
qed


lemma concat_rect:
  "list_all (\<lambda>r. length r = T) M \<Longrightarrow>
   length (concat M) = length M * T \<and>
   sum_list (concat M) = (\<Sum>i<length M. \<Sum>j<T. (M ! i ! j :: real))"
proof (induction M)
  case Nil
  then show ?case by simp
next
  case (Cons r M)
  then have r: "length r = T" and rest: "list_all (\<lambda>r. length r = T) M" by simp_all
  have "sum_list r = (\<Sum>j<T. r ! j)"
    using r by (simp add: sum_list_sum_nth atLeast0LessThan)
  moreover have "(\<Sum>i<Suc (length M). \<Sum>j<T. (r # M) ! i ! j)
      = (\<Sum>j<T. r ! j) + (\<Sum>i<length M. \<Sum>j<T. M ! i ! j)"
    by (subst sum.lessThan_Suc_shift) simp
  ultimately show ?case using Cons.IH [OF rest] r by simp
qed

lemma reduce_mean_rect:
  assumes "list_all (\<lambda>r. length r = T) M"
  shows "reduce_mean M =
     (if length M * T = 0 then NaN
      else Num ((\<Sum>i<length M. \<Sum>j<T. M ! i ! j) / real (length M * T)))"
proof -
  from concat_rect [OF assms] have len: "length (concat M) = length M * T"
    and sum: "sum_list (concat M) = (\<Sum>i<length M. \<Sum>j<T. M ! i ! j)"
    by simp_all
  have "(concat M = []) = (length M * T = 0)"
    using len by (metis length_0_conv)
  then show ?thesis
    by (simp only: reduce_mean_def len sum)
qed

lemma rect_nth:
  "list_all (\<lambda>r. length r = T) M \<Longrightarrow> i < length M \<Longrightarrow> length (M ! i) = T"
  by (simp add: list_all_length)

lemma masked_cross_entropy_rect:
  assumes N: "length label_indices = N"
    and T: "list_all (\<lambda>r. length r = T) label_indices"
    and m: "map length msk = map length label_indices"
    and l: "map (map length) lg = map (map (\<lambda>_. number_of_tags)) label_indices"
  shows "masked_cross_entropy lg label_indices number_of_tags msk =
     Inr (if N * T = 0 then NaN
          else Num ((\<Sum>i<N. \<Sum>j<T.
                 cross_entropy (one_hot_vec (label_indices ! i ! j) number_of_tags) (lg ! i ! j)
                 * msk ! i ! j) / real (N * T)))"
proof -
  define p where "p = one_hot label_indices number_of_tags"
  define L where "L = map2 (map2 cross_entropy) p lg"
  define M where "M = map2 (map2 (*)) L msk"
  have psh: "map (map length) p = map (map length) lg"
    by (simp add: p_def one_hot_shape l)
  then have sce: "softmax_cross_entropy_with_logits_v2 p lg = Inr L"
    by (simp add: softmax_cross_entropy_with_logits_v2_def L_def)
  have Lsh: "map length L = map length label_indices"
    using sce unfolding p_def by (rule loss_tensor_shape)
  then have LM: "map length L = map length msk" by (simp add: m)
  then have mul: "multiply L msk = Inr M" unfolding M_def by (rule multiply_same_shape)
  have lenlg: "length lg = N"
    using l N by (metis length_map)
  have lenm: "length msk = N"
    using m N by (metis length_map)
  have lenp: "length p = N" by (simp add: p_def one_hot_def N)
  have lenL: "length L = N" by (simp add: L_def lenp lenlg)
  have lenM: "length M = N" by (simp add: M_def lenL lenm)
  have rowlab: "length (label_indices ! i) = T" if "i < N" for i
    using rect_nth [OF T] that N by simp
  have rowm: "length (msk ! i) = T" if "i < N" for i
  proof -
    have "map length msk ! i = map length label_indices ! i" by (simp add: m)
    then show ?thesis using that lenm N rowlab by simp
  qed
  have rowlg: "length (lg ! i) = T" if "i < N" for i
  proof -
    have "map (map length) lg ! i = map (map (\<lambda>_. number_of_tags)) label_indices ! i"
      by (simp add: l)
    then have "map length (lg ! i) = map (\<lambda>_. number_of_tags) (label_indices ! i)"
      using that lenlg N by simp
    then have "length (lg ! i) = length (label_indices ! i)" by (metis length_map)
    then show ?thesis using rowlab that by simp
  qed
  have rowp: "length (p ! i) = T" if "i < N" for i
    using that N rowlab by (simp add: p_def one_hot_def)
  have Mi: "M ! i = map2 (*) (map2 cross_entropy (p ! i) (lg ! i)) (msk ! i)" if "i < N" for i
    using that lenlg lenm lenp by (simp add: M_def L_def)
  have rowM: "length (M ! i) = T" if "i < N" for i
    using that rowp rowlg rowm by (simp add: Mi)
  have Mij: "M ! i ! j
      = cross_entropy (one_hot_vec (label_indices ! i ! j) number_of_tags) (lg ! i ! j) * msk ! i ! j"
    if "i < N" "j < T" for i j
    using that N rowlab rowm rowlg rowp by (simp add: Mi p_def one_hot_def)
  have rectM: "list_all (\<lambda>r. length r = T) M"
    unfolding list_all_length using rowM lenM by simp
  have "reduce_mean M = (if N * T = 0 then NaN
          else Num ((\<Sum>i<N. \<Sum>j<T. M ! i ! j) / real (N * T)))"
    using reduce_mean_rect [OF rectM] unfolding lenM .
  also have "(\<Sum>i<N. \<Sum>j<T. M ! i ! j) = (\<Sum>i<N. \<Sum>j<T.
       cross_entropy (one_hot_vec (label_indices ! i ! j) number_of_tags) (lg ! i ! j) * msk ! i ! j)"
    by (intro sum.cong refl) (simp add: Mij)
  finally have "reduce_mean M = (if N * T = 0 then NaN
          else Num ((\<Sum>i<N. \<Sum>j<T.
                 cross_entropy (one_hot_vec (label_indices ! i ! j) number_of_tags) (lg ! i ! j)
                 * msk ! i ! j) / real (N * T)))" .
  then show ?thesis
    using sce mul by (simp add: masked_cross_entropy_def p_def)
qed

lemma masked_cross_entropy_ones:
  assumes sh: "map length msk = map length label_indices"
    and ones: "list_all (list_all (\<lambda>m. m = 1)) msk"
  shows "masked_cross_entropy lg label_indices number_of_tags msk
     = mean_cross_entropy lg label_indices number_of_tags"
proof -
  show ?thesis
  proof (cases "softmax_cross_entropy_with_logits_v2 (one_hot label_indices number_of_tags) lg")
    case (Inl e)
    then show ?thesis by (simp add: masked_cross_entropy_def mean_cross_entropy_def)
  next
    case (Inr t)
    from loss_tensor_shape [OF Inr] sh have ts: "map length t = map length msk" by simp
    have "multiply t msk = Inr t"
      by (simp add: multiply_same_shape [OF ts] mult_ones [OF ts ones])
    with Inr show ?thesis by (simp add: masked_cross_entropy_def mean_cross_entropy_def)
  qed
qed

text \<open>
  C4. \<open>masked_cross_entropy\<close> returns the mean of the masked per-token cross-entropy over
  all \<open>N * T\<close> entries of the batch: on logits \<open>[N, T, number_of_tags]\<close>, labels \<open>[N, T]\<close> and
  a mask \<open>[N, T]\<close> the result is the sum of all masked entries divided by \<open>N * T\<close>, whatever
  the number of ones in the mask (and not a number when the batch has no entry). With an
  all-ones mask of the labels' shape the result is the unmasked mean cross-entropy.
\<close>

theorem masked_cross_entropy_mean_over_all_entries:
  "(length label_indices = N \<and> list_all (\<lambda>r. length r = T) label_indices
      \<and> map length msk = map length label_indices
      \<and> map (map length) lg = map (map (\<lambda>_. number_of_tags)) label_indices
    \<longrightarrow> masked_cross_entropy lg label_indices number_of_tags msk =
        Inr (if N * T = 0 then NaN
             else Num ((\<Sum>i<N. \<Sum>j<T.
                    cross_entropy (one_hot_vec (label_indices ! i ! j) number_of_tags) (lg ! i ! j)
                    * msk ! i ! j) / real (N * T))))
   \<and> (map length msk = map length label_indices \<and> list_all (list_all (\<lambda>m. m = 1)) msk
    \<longrightarrow> masked_cross_entropy lg label_indices number_of_tags msk =
        mean_cross_entropy lg label_indices number_of_tags)"
  using masked_cross_entropy_rect [of label_indices N T msk lg number_of_tags]
    masked_cross_entropy_ones [of msk label_indices lg number_of_tags]
  by blast

lemma upt2: "[0..<2] = [0, Suc 0]"
  by (simp add: upt_rec numeral_2_eq_2)

text \<open>
  One sentence of two tokens with uniform logits: each token's cross-entropy is \<open>ln 2\<close>.
  With the second token masked out, the loss is \<open>ln 2 / 2\<close>: the sum is divided by the two
  entries, not by the one real token.
\<close>

theorem masked_cross_entropy_mean_over_all_entries_witness:
  "masked_cross_entropy [[[0, 0], [0, 0]]] [[0, 1]] 2 [[1, 0]] = Inr (Num (ln 2 / 2))
   \<and> masked_cross_entropy [[[0, 0], [0, 0]]] [[0, 1]] 2 [[1, 1]]
     = mean_cross_entropy [[[0, 0], [0, 0]]] [[0, 1]] 2"
proof -
  have "masked_cross_entropy [[[0, 0], [0, 0]]] [[0, 1]] 2 [[1, 0]] = Inr (Num (ln 2 / 2))"
    using masked_cross_entropy_mean_over_all_entries
      [of "[[0, 1]]" 1 2 "[[1, 0]]" "[[[0, 0], [0, 0]]]" 2, THEN conjunct1]
    by (simp add: cross_entropy_def one_hot_vec_def log_softmax_def upt2 lessThan_Suc numeral_2_eq_2)
  moreover have "masked_cross_entropy [[[0, 0], [0, 0]]] [[0, 1]] 2 [[1, 1]]
      = mean_cross_entropy [[[0, 0], [0, 0]]] [[0, 1]] 2"
    using masked_cross_entropy_mean_over_all_entries
      [of "[[0, 1]]" 1 2 "[[1, 1]]" "[[[0, 0], [0, 0]]]" 2, THEN conjunct2]
    by simp
  ultimately show ?thesis by (rule conjI)
qed

section \<open>The masked loss under an all-zeros mask\<close>

lemma broadcast_times_same:
  "length xs = length ys \<Longrightarrow>
   broadcast (\<lambda>x m. Inr (times_float32 x m)) xs ys = Inr (map2 times_float32 xs ys)"
proof -
  assume "length xs = length ys"
  then have "broadcast (\<lambda>x m. Inr (times_float32 x m)) xs ys
      = sequence (map (\<lambda>p. Inr (times_float32 (fst p) (snd p))) (zip xs ys))"
    by (simp add: broadcast_same_length case_prod_unfold)
  also have "\<dots> = Inr (map (\<lambda>p. times_float32 (fst p) (snd p)) (zip xs ys))"
    by (rule sequence_map_Inr)
  finally show ?thesis by (simp add: case_prod_unfold)
qed

lemma multiply_float32_same_shape:
  assumes "map length a = map length b"
  shows "multiply_float32 a b = Inr (map2 (map2 times_float32) a b)"
proof -
  have len: "length a = length b" using assms by (metis length_map)
  have "sequence (map2 (broadcast (\<lambda>x m. Inr (times_float32 x m))) a b)
      = Inr (map2 (map2 times_float32) a b)"
    using assms
  proof (induction a arbitrary: b)
    case Nil
    then show ?case by simp
  next
    case (Cons r a)
    then obtain s b' where b: "b = s # b'" by (cases b) auto
    with Cons.prems have l: "length r = length s" and rest: "map length a = map length b'"
      by simp_all
    show ?case by (simp add: b broadcast_times_same [OF l] Cons.IH [OF rest])
  qed
  then show ?thesis by (simp add: multiply_float32_def broadcast_same_length [OF len])
qed

lemma times_zero: "times_float32 x 0 = (if is_finite x then Finite 0 else NotNum)"
  by (cases x) simp_all

lemma map2_times_zeros:
  "length r = length s \<Longrightarrow> list_all (\<lambda>m. m = 0) s \<Longrightarrow>
   map2 times_float32 r s = map (\<lambda>x. if is_finite x then Finite 0 else NotNum) r"
  by (induction r s rule: list_induct2) (simp_all add: times_zero)

lemma map2_rows_times_zeros:
  "map length a = map length b \<Longrightarrow> list_all (list_all (\<lambda>m. m = 0)) b \<Longrightarrow>
   map2 (map2 times_float32) a b = map (map (\<lambda>x. if is_finite x then Finite 0 else NotNum)) a"
proof (induction a arbitrary: b)
  case Nil
  then show ?case by simp
next
  case (Cons r a)
  then obtain s b' where b: "b = s # b'" by (cases b) auto
  with Cons.prems have "length r = length s" "list_all (\<lambda>m. m = 0) s"
    "map length a = map length b'" "list_all (list_all (\<lambda>m. m = 0)) b'"
    by simp_all
  then show ?case by (simp add: b map2_times_zeros Cons.IH)
qed

lemma sum_zeros_or_nan:
  "foldr plus_float32 (map (\<lambda>x. if is_finite x then Finite 0 else NotNum) xs) (Finite 0)
     = (if list_all is_finite xs then Finite 0 else NotNum)"
  by (induction xs) simp_all

lemma length_concat_rect:
  "list_all (\<lambda>r. length r = T) M \<Longrightarrow> length (concat M) = length M * T"
  by (induction M) simp_all

lemma list_all_concat: "list_all P (concat xss) = list_all (list_all P) xss"
  by (induction xss) simp_all

lemma foldr_plus_Finite:
  "foldr plus_float32 (map Finite xs) (Finite 0) = Finite (sum_list xs)"
  by (induction xs) simp_all

lemma reduce_mean_float32_Finite:
  "reduce_mean_float32 (map (map Finite) t) = float32_of (reduce_mean t)"
proof -
  have "concat (map (map Finite) t) = map Finite (concat t)" by (simp add: map_concat)
  then show ?thesis
    by (simp add: reduce_mean_float32_def reduce_mean_def foldr_plus_Finite)
qed

lemma masked_cross_entropy_float32_finite:
  assumes "map length msk = map length label_indices"
  shows "masked_cross_entropy_float32 finite_cross_entropy lg label_indices number_of_tags msk =
     (case masked_cross_entropy lg label_indices number_of_tags msk of
        Inl e \<Rightarrow> Inl e
      | Inr s \<Rightarrow> Inr (float32_of s))"
proof (cases "softmax_cross_entropy_with_logits_v2 (one_hot label_indices number_of_tags) lg")
  case (Inl e)
  then show ?thesis
    by (simp add: masked_cross_entropy_float32_def masked_cross_entropy_def finite_cross_entropy_def)
next
  case (Inr t)
  from loss_tensor_shape [OF Inr] assms have ts: "map length t = map length msk" by simp
  then have ts': "map length (map (map Finite) t) = map length msk" by (simp add: comp_def)
  define M where "M = map2 (map2 (*)) t msk"
  have "map2 (map2 times_float32) (map (map Finite) t) msk = map (map Finite) (map2 (map2 (*)) t msk)"
    using ts
  proof (induction t arbitrary: msk)
    case Nil
    then show ?case by simp
  next
    case (Cons r t)
    then obtain s msk' where b: "msk = s # msk'" by (cases msk) auto
    with Cons.prems have lr: "length r = length s" and rest: "map length t = map length msk'"
      by simp_all
    from lr have "map2 times_float32 (map Finite r) s = map Finite (map2 (*) r s)"
      by (induction r s rule: list_induct2) simp_all
    with Cons.IH [OF rest] show ?case by (simp add: b)
  qed
  then have mf: "multiply_float32 (map (map Finite) t) msk = Inr (map (map Finite) M)"
    unfolding M_def by (simp only: multiply_float32_same_shape [OF ts'])
  have mr: "multiply t msk = Inr M"
    unfolding M_def by (rule multiply_same_shape [OF ts])
  show ?thesis
    by (simp add: masked_cross_entropy_float32_def masked_cross_entropy_def finite_cross_entropy_def
        Inr mf mr reduce_mean_float32_Finite)
qed

text \<open>
  C9. Let the kernel return the per-token cross-entropies \<open>loss_tensor\<close> of shape \<open>[N, T]\<close>
  for the logits and the labels, and let the mask \<open>[N, T]\<close> be all zeros. If the batch has
  at least one entry and every cross-entropy is finite, \<open>masked_cross_entropy\<close> returns
  exactly 0, whatever the logits and the labels are. If the batch has no entry, or some
  cross-entropy is infinite or not a number, it returns not-a-number.
\<close>

theorem masked_cross_entropy_float32_zero_mask:
  assumes k: "xent (one_hot label_indices number_of_tags) lgts = Inr loss_tensor"
    and N: "length label_indices = N"
    and T: "list_all (\<lambda>r. length r = T) label_indices"
    and l: "map length loss_tensor = map length label_indices"
    and m: "map length msk = map length label_indices"
    and z: "list_all (list_all (\<lambda>m. m = 0)) msk"
  shows "masked_cross_entropy_float32 xent lgts label_indices number_of_tags msk =
     Inr (if N * T = 0 then NotNum
          else if list_all (list_all is_finite) loss_tensor then Finite 0 else NotNum)"
proof -
  define g where "g = (\<lambda>x. if is_finite x then Finite 0 else NotNum)"
  have sh: "map length loss_tensor = map length msk" by (simp add: l m)
  have mul: "multiply_float32 loss_tensor msk = Inr (map (map g) loss_tensor)"
    unfolding g_def
    by (simp only: multiply_float32_same_shape [OF sh] map2_rows_times_zeros [OF sh z])
  have len: "length loss_tensor = N" using l N by (metis length_map)
  have "list_all (\<lambda>n. n = T) (map length loss_tensor)"
    unfolding l using T by (simp add: list_all_iff)
  then have rect: "list_all (\<lambda>r. length r = T) loss_tensor"
    by (simp add: list_all_iff)
  have c: "concat (map (map g) loss_tensor) = map g (concat loss_tensor)"
    by (simp add: map_concat)
  have cl: "length (concat loss_tensor) = N * T"
    using length_concat_rect [OF rect] len by simp
  have e: "(concat (map (map g) loss_tensor) = []) = (N * T = 0)"
    unfolding c using cl by (metis length_0_conv length_map)
  have "foldr plus_float32 (concat (map (map g) loss_tensor)) (Finite 0)
      = foldr plus_float32 (map g (concat loss_tensor)) (Finite 0)"
    by (simp only: c)
  also have "\<dots> = (if list_all is_finite (concat loss_tensor) then Finite 0 else NotNum)"
    unfolding g_def by (rule sum_zeros_or_nan)
  also have "list_all is_finite (concat loss_tensor) = list_all (list_all is_finite) loss_tensor"
    by (rule list_all_concat)
  finally have s: "foldr plus_float32 (concat (map (map g) loss_tensor)) (Finite 0)
      = (if list_all (list_all is_finite) loss_tensor then Finite 0 else NotNum)" .
  have "reduce_mean_float32 (map (map g) loss_tensor) =
      (if N * T = 0 then NotNum
       else divide_float32 (if list_all (list_all is_finite) loss_tensor then Finite 0 else NotNum)
              (real (length (concat (map (map g) loss_tensor)))))"
    by (simp only: reduce_mean_float32_def e s)
  then have "reduce_mean_float32 (map (map g) loss_tensor) =
      (if N * T = 0 then NotNum
       else if list_all (list_all is_finite) loss_tensor then Finite 0 else NotNum)"
    by simp
  then show ?thesis
    by (simp add: masked_cross_entropy_float32_def k mul)
qed

text \<open>
  One sentence of two tokens with arbitrary finite logits, both tokens masked out, with the
  kernel of the real model; and one token with a logit that is not a number, for which
  the kernel returns not-a-number.
\<close>

theorem masked_cross_entropy_float32_zero_mask_witness:
  "masked_cross_entropy_float32 finite_cross_entropy [[[3, -1], [0, 2]]] [[0, 1]] 2 [[0, 0]]
     = Inr (Finite 0)
   \<and> masked_cross_entropy_float32 (\<lambda>p l. Inr [[NotNum]]) [[[NotNum, Finite 0]]] [[0]] 2 [[0]]
     = Inr NotNum"
proof -
  have k: "finite_cross_entropy (one_hot [[0, 1]] 2) [[[3, -1], [0, 2]]]
      = Inr [[Finite (cross_entropy (one_hot_vec 0 2) [3, -1]),
              Finite (cross_entropy (one_hot_vec 1 2) [0, 2])]]"
    by (simp add: finite_cross_entropy_def softmax_cross_entropy_with_logits_v2_def one_hot_def
        one_hot_vec_def)
  have a: "masked_cross_entropy_float32 finite_cross_entropy [[[3, -1], [0, 2]]] [[0, 1]] 2 [[0, 0]]
     = Inr (Finite 0)"
    using k masked_cross_entropy_float32_zero_mask
      [of finite_cross_entropy "[[0, 1]]" 2 "[[[3, -1], [0, 2]]]"
          "[[Finite (cross_entropy (one_hot_vec 0 2) [3, -1]),
             Finite (cross_entropy (one_hot_vec 1 2) [0, 2])]]" 1 2 "[[0, 0]]"]
    by simp
  have b: "masked_cross_entropy_float32 (\<lambda>p l. Inr [[NotNum]]) [[[NotNum, Finite 0]]] [[0]] 2 [[0]]
     = Inr NotNum"
    using masked_cross_entropy_float32_zero_mask
      [of "\<lambda>p l. Inr [[NotNum]]" "[[0]]" 2 "[[[NotNum, Finite 0]]]" "[[NotNum]]" 1 1 "[[0]]"]
    by simp
  from a b show ?thesis by (rule conjI)
qed

text \<open>
  On a batch with no entry (no sentence, or two sentences of no token) every mask is
  all zeros, and the mean over no entries is not a number, not 0: in the real model and
  on float32 values. On one token with a logit that is not a number the kernel returns
  not-a-number, and so does the loss under the mask 0.
\<close>

theorem masked_cross_entropy_empty_batch:
  "list_all (list_all (\<lambda>m. m = 0)) ([] :: real list list)
   \<and> masked_cross_entropy [] [] 2 [] = Inr NaN
   \<and> masked_cross_entropy [] [] 2 [] \<noteq> Inr (Num 0)
   \<and> list_all (list_all (\<lambda>m. m = 0)) ([[], []] :: real list list)
   \<and> masked_cross_entropy [[], []] [[], []] 2 [[], []] = Inr NaN
   \<and> masked_cross_entropy_float32 finite_cross_entropy [[], []] [[], []] 2 [[], []] = Inr NotNum
   \<and> masked_cross_entropy_float32 (\<lambda>p l. Inr [[NotNum]]) [[[NotNum, Finite 0]]] [[0]] 2 [[0]]
       \<noteq> Inr (Finite 0)"
  by (simp add: masked_cross_entropy_def one_hot_def softmax_cross_entropy_with_logits_v2_def
      multiply_def broadcast_def reduce_mean_def masked_cross_entropy_float32_def
      finite_cross_entropy_def multiply_float32_def reduce_mean_float32_def)

section \<open>The mask\<close>

lemma length_le_max_len: "u \<in> set batch \<Longrightarrow> length u \<le> max_len batch"
  by (induction batch) (auto simp: max_len_def)

lemma max_len_map [simp]: "max_len (map (map f) batch) = max_len batch"
  by (simp add: max_len_def comp_def)

lemma get_mask_row:
  assumes "i < length batch"
  shows "get_mask batch ! i
    = replicate (length (batch ! i)) 1 @ replicate (max_len batch - length (batch ! i)) 0"
  using assms by (simp add: get_mask_def)

text \<open>
  C7. The mask has one row for each sequence and the shape of the padded batch. In row
  \<open>i\<close> the entry \<open>j\<close> is 1 if \<open>j\<close> is less than the length of the sequence \<open>i\<close> and 0
  otherwise, so it is 1 if and only if \<open>j < length_i\<close>, and the row sums to that length.
  Rows of lengths 5 and 2 give the mask rows \<open>[1,1,1,1,1]\<close> and \<open>[1,1,0,0,0]\<close>.
\<close>

theorem get_mask_marks_real_positions:
  "length (get_mask batch) = length batch
   \<and> map length (get_mask batch) = map length (zero_pad (map (map token_vocab) batch))
   \<and> (i < length batch \<longrightarrow>
        length (get_mask batch ! i) = max_len batch
        \<and> (\<forall>j<max_len batch. get_mask batch ! i ! j = (if j < length (batch ! i) then 1 else 0))
        \<and> (\<forall>j<max_len batch. (get_mask batch ! i ! j = 1) = (j < length (batch ! i)))
        \<and> sum_list (get_mask batch ! i) = real (length (batch ! i)))
   \<and> (length r1 = 5 \<and> length r2 = 2 \<longrightarrow> get_mask [r1, r2] = [[1, 1, 1, 1, 1], [1, 1, 0, 0, 0]])"
proof (intro conjI impI)
  show "length (get_mask batch) = length batch" by (simp add: get_mask_def)
  show "map length (get_mask batch) = map length (zero_pad (map (map token_vocab) batch))"
    by (simp add: get_mask_def zero_pad_def comp_def)
next
  assume i: "i < length batch"
  then have le: "length (batch ! i) \<le> max_len batch"
    by (simp add: length_le_max_len)
  show "length (get_mask batch ! i) = max_len batch"
    using le by (simp add: get_mask_row [OF i])
  show entries: "\<forall>j<max_len batch. get_mask batch ! i ! j = (if j < length (batch ! i) then 1 else 0)"
    using le by (simp add: get_mask_row [OF i] nth_append)
  then show "\<forall>j<max_len batch. (get_mask batch ! i ! j = 1) = (j < length (batch ! i))"
    by simp
  show "sum_list (get_mask batch ! i) = real (length (batch ! i))"
    by (simp add: get_mask_row [OF i] sum_list_replicate)
next
  assume "length r1 = 5 \<and> length r2 = 2"
  then show "get_mask [r1, r2] = [[1, 1, 1, 1, 1], [1, 1, 0, 0, 0]]"
    by (simp add: get_mask_def max_len_def eval_nat_numeral)
qed

text \<open>The batch of the notebook's cell that tries \<open>get_mask\<close> out.\<close>

theorem get_mask_marks_real_positions_witness:
  "get_mask [[''Try'', ''to'', ''get'', ''the'', ''mask''], [''Check'', ''paddings'']]
     = [[1, 1, 1, 1, 1], [1, 1, 0, 0, 0]]
   \<and> sum_list (get_mask [[''Try'', ''to'', ''get'', ''the'', ''mask''], [''Check'', ''paddings'']] ! 1) = 2
   \<and> length (get_mask [[''Try'', ''to'', ''get'', ''the'', ''mask''], [''Check'', ''paddings'']] ! 1) = 5"
proof -
  let ?b = "[[''Try'', ''to'', ''get'', ''the'', ''mask''], [''Check'', ''paddings'']]"
  note t = get_mask_marks_real_positions
    [of ?b "\<lambda>_. 0" 1 "[''Try'', ''to'', ''get'', ''the'', ''mask'']" "[''Check'', ''paddings'']"]
  have "get_mask ?b = [[1, 1, 1, 1, 1], [1, 1, 0, 0, 0]]"
    using t by simp
  moreover have "sum_list (get_mask ?b ! 1) = 2"
    using t by simp
  moreover have "length (get_mask ?b ! 1) = 5"
    using t by (simp add: max_len_def)
  ultimately show ?thesis by simp
qed

section \<open>The evaluator cuts the predictions to the sentences\<close>

lemma eval_valid_loop_accumulates:
  assumes "\<forall>(x, y_true)\<in>set batch_generator.
             network (zero_pad (map (map token_vocab) x)) (get_mask x) = Inr (out x)"
  shows "eval_valid_loop network token_vocab tag_vocab batch_generator (total_true, total_pred) =
     Inr (total_true @ concat (map (\<lambda>(x, y_true). concat y_true) batch_generator),
          total_pred @ concat (map (\<lambda>(x, y_true).
             concat (map (map tag_vocab) (map (\<lambda>(x', y'). take (length x') y') (zip x (out x)))))
             batch_generator))"
  using assms
proof (induction batch_generator arbitrary: total_true total_pred)
  case Nil
  then show ?case by simp
next
  case (Cons b batch_generator)
  obtain x y_true where b: "b = (x, y_true)" by (cases b)
  from Cons.prems have run: "network (zero_pad (map (map token_vocab) x)) (get_mask x) = Inr (out x)"
    and rest: "\<forall>(x, y_true)\<in>set batch_generator.
             network (zero_pad (map (map token_vocab) x)) (get_mask x) = Inr (out x)"
    by (simp_all add: b)
  show ?case
    by (simp add: b run Cons.IH [OF rest])
qed

lemma concat_map_concat: "concat (map concat xss) = concat (concat xss)"
  by (induction xss) simp_all

lemma length_concat_truncated:
  assumes "length y_inds = length x" and "list_all (\<lambda>y'. length y' = max_len x) y_inds"
  shows "length (concat (map (map tag_vocab) (map (\<lambda>(x', y'). take (length x') y') (zip x y_inds))))
     = length (concat x)"
proof -
  have "\<And>x' y'. (x', y') \<in> set (zip x y_inds) \<Longrightarrow> min (length y') (length x') = length x'"
  proof -
    fix x' y' assume m: "(x', y') \<in> set (zip x y_inds)"
    then have "x' \<in> set x" "y' \<in> set y_inds" by (auto dest: set_zip_leftD set_zip_rightD)
    then have "length x' \<le> max_len x" "length y' = max_len x"
      using assms(2) by (auto simp: list_all_iff length_le_max_len)
    then show "min (length y') (length x') = length x'" by simp
  qed
  then have "map (\<lambda>p. length (take (length (fst p)) (snd p))) (zip x y_inds)
      = map (\<lambda>p. length (fst p)) (zip x y_inds)"
    by (intro map_cong refl) auto
  also have "\<dots> = map length (map fst (zip x y_inds))" by (simp add: comp_def)
  also have "\<dots> = map length x" using assms(1) by simp
  finally show ?thesis
    by (simp add: length_concat comp_def case_prod_unfold)
qed


text \<open>
  C6. When the network answers every batch \<open>x\<close> of the split with the tag ids \<open>out x\<close>, the
  evaluator computes the metric on the true tags of all batches, in order, and on the
  predictions of all batches, in order, where each predicted row is cut to the length of
  its sentence before its ids are decoded. When the network's rows have the padded
  length, the accumulated predictions are as many as the tokens of the split: no tag
  predicted at a padded position is among them.
\<close>

theorem eval_valid_truncates_to_sentence_length:
  assumes "\<forall>(x, y_true)\<in>set batch_generator.
             network (zero_pad (map (map token_vocab) x)) (get_mask x) = Inr (out x)"
  shows "eval_valid network token_vocab tag_vocab precision_recall_f1 batch_generator =
     Inr (precision_recall_f1
            (concat (map (\<lambda>(x, y_true). concat y_true) batch_generator))
            (concat (map (\<lambda>(x, y_true).
               concat (map (map tag_vocab) (map (\<lambda>(x', y'). take (length x') y') (zip x (out x)))))
               batch_generator)))
     \<and> ((\<forall>(x, y_true)\<in>set batch_generator.
            length (out x) = length x \<and> list_all (\<lambda>y'. length y' = max_len x) (out x))
         \<longrightarrow> (\<exists>total_true total_pred.
               eval_valid_loop network token_vocab tag_vocab batch_generator ([], [])
                 = Inr (total_true, total_pred)
               \<and> length total_pred = length (concat (concat (map fst batch_generator)))))"
proof (intro conjI impI)
  show "eval_valid network token_vocab tag_vocab precision_recall_f1 batch_generator =
     Inr (precision_recall_f1
            (concat (map (\<lambda>(x, y_true). concat y_true) batch_generator))
            (concat (map (\<lambda>(x, y_true).
               concat (map (map tag_vocab) (map (\<lambda>(x', y'). take (length x') y') (zip x (out x)))))
               batch_generator)))"
    by (simp add: eval_valid_def eval_valid_loop_accumulates [OF assms])
next
  assume sh: "\<forall>(x, y_true)\<in>set batch_generator.
          length (out x) = length x \<and> list_all (\<lambda>y'. length y' = max_len x) (out x)"
  define pred where "pred = (\<lambda>b :: string list list \<times> string list list.
      concat (map (map tag_vocab) (map (\<lambda>(x', y'). take (length x') y') (zip (fst b) (out (fst b))))))"
  have "map (\<lambda>b. length (pred b)) batch_generator
      = map (\<lambda>b. length (concat (fst b))) batch_generator"
  proof (intro map_cong refl)
    fix b assume "b \<in> set batch_generator"
    with sh have "length (out (fst b)) = length (fst b)"
      "list_all (\<lambda>y'. length y' = max_len (fst b)) (out (fst b))" by auto
    then show "length (pred b) = length (concat (fst b))"
      unfolding pred_def by (rule length_concat_truncated)
  qed
  then have "sum_list (map length (map pred batch_generator))
      = sum_list (map length (map (\<lambda>b. concat (fst b)) batch_generator))"
    by (simp only: map_map comp_def)
  then have "length (concat (map pred batch_generator))
      = length (concat (map concat (map fst batch_generator)))"
    by (simp add: length_concat comp_def)
  then have len: "length (concat (map pred batch_generator))
      = length (concat (concat (map fst batch_generator)))"
    by (simp only: concat_map_concat)
  have "eval_valid_loop network token_vocab tag_vocab batch_generator ([], [])
      = Inr (concat (map (\<lambda>(x, y_true). concat y_true) batch_generator),
             concat (map pred batch_generator))"
    by (simp add: eval_valid_loop_accumulates [OF assms] pred_def case_prod_unfold)
  with len show "\<exists>total_true total_pred.
             eval_valid_loop network token_vocab tag_vocab batch_generator ([], [])
               = Inr (total_true, total_pred)
             \<and> length total_pred = length (concat (concat (map fst batch_generator)))"
    by blast
qed

text \<open>
  One batch of two sentences, of two tokens and of one. The network answers with a row of
  two tag ids for each; the id 7 at the padded position of the second row is cut off
  before the ids are decoded.
\<close>

theorem eval_valid_truncates_to_sentence_length_witness:
  "eval_valid (\<lambda>x_batch msk. Inr [[0, 1], [1, 7]]) (\<lambda>tok. 0)
       (\<lambda>i. if i = 0 then ''O'' else if i = 1 then ''B-PER'' else ''I-PER'') Pair
       [([[''Petr'', ''stole''], [''vodka'']], [[''B-PER'', ''O''], [''O'']])]
     = Inr ([''B-PER'', ''O'', ''O''], [''O'', ''B-PER'', ''B-PER''])"
  using eval_valid_truncates_to_sentence_length
    [of "[([[''Petr'', ''stole''], [''vodka'']], [[''B-PER'', ''O''], [''O'']])]"
        "\<lambda>x_batch msk. Inr [[0, 1], [1, 7]]" "\<lambda>tok. 0" "\<lambda>x. [[0, 1], [1, 7]]"
        "\<lambda>i. if i = 0 then ''O'' else if i = 1 then ''B-PER'' else ''I-PER''" Pair]
  by simp

section \<open>Dropout with a noise shape\<close>

lemma sequence_map_cong:
  "(\<And>x. x \<in> set xs \<Longrightarrow> f x = Inr (g x)) \<Longrightarrow> sequence (map f xs) = Inr (map g xs)"
  by (induction xs) simp_all

lemma sequence_Inr_iff: "sequence xs = Inr ys \<longleftrightarrow> xs = map Inr ys"
proof (induction xs arbitrary: ys)
  case Nil
  then show ?case by auto
next
  case (Cons x xs)
  show ?case
  proof (cases x)
    case (Inl e)
    then show ?thesis by (cases ys) auto
  next
    case (Inr v)
    show ?thesis
    proof (cases "sequence xs")
      case (Inl e)
      with Cons.IH have "\<And>zs. xs \<noteq> map Inr zs" by (metis sum.distinct(1))
      with Inl Inr show ?thesis by (cases ys) auto
    next
      case r: (Inr vs)
      with Cons.IH [of vs] have xs: "xs = map Inr vs" by blast
      have inj: "\<And>as bs :: 'b list. (map Inr as :: (error + 'b) list) = map Inr bs \<longleftrightarrow> as = bs"
        by (simp add: inj_map_eq_map)
      show ?thesis using r Inr xs by (cases ys) (auto simp: inj)
    qed
  qed
qed

lemma broadcast_row:
  assumes "list_all (\<lambda>v. length v = length b) xn"
  shows "broadcast (broadcast (\<lambda>x y. Inr (x * y))) xn [b] = Inr (map (\<lambda>xt. map2 (*) xt (b :: real list)) xn)"
proof -
  have each: "\<And>xt. xt \<in> set xn \<Longrightarrow>
      broadcast (\<lambda>x y. Inr (x * y)) xt b = Inr (map2 (*) xt b)"
    using assms by (simp add: list_all_iff broadcast_mult_same)
  show ?thesis
  proof (cases "length xn = 1")
    case True
    then obtain xt where xn: "xn = [xt]" by (cases xn) auto
    with each show ?thesis by (simp add: broadcast_def)
  next
    case False
    then have "broadcast (broadcast (\<lambda>x y. Inr (x * y))) xn [b]
        = sequence (map (\<lambda>xt. broadcast (\<lambda>x y. Inr (x * y)) xt b) xn)"
      by (simp add: broadcast_def)
    also have "\<dots> = Inr (map (\<lambda>xt. map2 (*) xt b) xn)"
      by (rule sequence_map_cong) (rule each)
    finally show ?thesis .
  qed
qed

lemma zip_map_upt:
  "zip X (map h [0..<length X]) = map (\<lambda>n. (X ! n, h n)) [0..<length X]"
  by (rule nth_equalityI) simp_all

lemma multiply3_noise:
  assumes "list_all (list_all (\<lambda>v. length v = C)) X" and "\<And>n. length (bf n) = C"
  shows "multiply3 X (map (\<lambda>n. [bf n]) [0..<length X])
     = Inr (map (\<lambda>n. map (\<lambda>xt. map2 (*) xt (bf n)) (X ! n)) [0..<length X])"
proof -
  have "multiply3 X (map (\<lambda>n. [bf n]) [0..<length X])
      = sequence (map (\<lambda>n. broadcast (broadcast (\<lambda>x y. Inr (x * y))) (X ! n) [bf n]) [0..<length X])"
    by (simp add: multiply3_def broadcast_same_length zip_map_upt comp_def)
  also have "\<dots> = Inr (map (\<lambda>n. map (\<lambda>xt. map2 (*) xt (bf n)) (X ! n)) [0..<length X])"
  proof (rule sequence_map_cong)
    fix n assume "n \<in> set [0..<length X]"
    then have "list_all (\<lambda>v. length v = length (bf n)) (X ! n)"
      using assms by (simp add: list_all_length)
    then show "broadcast (broadcast (\<lambda>x y. Inr (x * y))) (X ! n) [bf n]
        = Inr (map (\<lambda>xt. map2 (*) xt (bf n)) (X ! n))"
      by (rule broadcast_row)
  qed
  finally show ?thesis .
qed

lemma dropout_formula:
  assumes "list_all (list_all (\<lambda>v. length v = C)) x"
  shows "dropout x keep_prob (length x, 1, C) rnd
     = Inr (map (\<lambda>n. map (\<lambda>xt. map (\<lambda>c. xt ! c / keep_prob * real_of_int \<lfloor>keep_prob + rnd n 0 c\<rfloor>)
                                    [0..<C]) (x ! n)) [0..<length x])"
proof -
  let ?X = "map (map (map (\<lambda>v. v / keep_prob))) x"
  let ?bf = "\<lambda>n. map (\<lambda>k. real_of_int \<lfloor>keep_prob + rnd n 0 k\<rfloor>) [0..<C]"
  have X: "list_all (list_all (\<lambda>v. length v = C)) ?X"
    using assms by (simp add: list_all_iff)
  have "dropout x keep_prob (length x, 1, C) rnd = multiply3 ?X (map (\<lambda>n. [?bf n]) [0..<length ?X])"
    by (simp add: dropout_def random_uniform_def comp_def)
  also have "\<dots> = Inr (map (\<lambda>n. map (\<lambda>xt. map2 (*) xt (?bf n)) (?X ! n)) [0..<length ?X])"
    by (rule multiply3_noise [OF X]) simp
  also have "map (\<lambda>n. map (\<lambda>xt. map2 (*) xt (?bf n)) (?X ! n)) [0..<length ?X]
      = map (\<lambda>n. map (\<lambda>xt. map (\<lambda>c. xt ! c / keep_prob * real_of_int \<lfloor>keep_prob + rnd n 0 c\<rfloor>)
                                    [0..<C]) (x ! n)) [0..<length x]"
  proof -
    have "map (\<lambda>xt. map2 (*) xt (?bf n)) (?X ! n)
        = map (\<lambda>xt. map (\<lambda>c. xt ! c / keep_prob * real_of_int \<lfloor>keep_prob + rnd n 0 c\<rfloor>) [0..<C]) (x ! n)"
      if n: "n < length x" for n
    proof -
      have "map2 (*) (map (\<lambda>v. v / keep_prob) xt) (?bf n)
          = map (\<lambda>c. xt ! c / keep_prob * real_of_int \<lfloor>keep_prob + rnd n 0 c\<rfloor>) [0..<C]"
        if "xt \<in> set (x ! n)" for xt
      proof -
        from n have "x ! n \<in> set x" by simp
        with that assms have "length xt = C" by (auto simp: list_all_iff)
        then show ?thesis by (intro nth_equalityI) simp_all
      qed
      then show ?thesis using n by (simp add: comp_def)
    qed
    then show ?thesis by simp
  qed
  finally show ?thesis .
qed

lemma dropout_keep_1:
  assumes "list_all (list_all (\<lambda>v. length v = C)) x"
    and "\<And>i j k. 0 \<le> rnd i j k \<and> rnd i j k < 1"
  shows "dropout x 1 (length x, 1, C) rnd = Inr x"
proof -
  have fl: "\<lfloor>1 + rnd n 0 c\<rfloor> = 1" for n c
    using assms(2) [of n 0 c] by linarith
  have "dropout x 1 (length x, 1, C) rnd
      = Inr (map (\<lambda>n. map (\<lambda>xt. map (\<lambda>c. xt ! c / 1 * real_of_int \<lfloor>1 + rnd n 0 c\<rfloor>) [0..<C]) (x ! n))
          [0..<length x])"
    by (rule dropout_formula [OF assms(1)])
  also have "map (\<lambda>n. map (\<lambda>xt. map (\<lambda>c. xt ! c / 1 * real_of_int \<lfloor>1 + rnd n 0 c\<rfloor>) [0..<C]) (x ! n))
          [0..<length x] = map (\<lambda>n. x ! n) [0..<length x]"
  proof (intro map_cong refl)
    fix n assume "n \<in> set [0..<length x]"
    then have "list_all (\<lambda>v. length v = C) (x ! n)"
      using assms(1) by (simp add: list_all_length)
    then have "map (\<lambda>xt. map (\<lambda>c. xt ! c) [0..<C]) (x ! n) = map (\<lambda>xt. xt) (x ! n)"
      by (intro map_cong refl) (auto simp: list_all_iff map_nth)
    then show "map (\<lambda>xt. map (\<lambda>c. xt ! c / 1 * real_of_int \<lfloor>1 + rnd n 0 c\<rfloor>) [0..<C]) (x ! n) = x ! n"
      by (simp add: fl)
  qed
  also have "map (\<lambda>n. x ! n) [0..<length x] = x" by (rule map_nth)
  finally show ?thesis .
qed

section \<open>Shapes along the forward pass\<close>

lemma embedding_lookup_in_range:
  assumes "list_all (list_all (\<lambda>i. 0 \<le> i \<and> i < int (length params))) ids"
  shows "embedding_lookup params ids = Inr (map (map (\<lambda>i. params ! nat i)) ids)"
  unfolding embedding_lookup_def
proof (rule sequence_map_cong)
  fix row assume "row \<in> set ids"
  with assms have r: "list_all (\<lambda>i. 0 \<le> i \<and> i < int (length params)) row"
    by (simp add: list_all_iff)
  show "sequence (map (\<lambda>i. if 0 \<le> i \<and> i < int (length params) then Inr (params ! nat i)
                           else Inl InvalidArgument) row) = Inr (map (\<lambda>i. params ! nat i) row)"
    by (rule sequence_map_cong) (use r in \<open>auto simp: list_all_iff\<close>)
qed

lemma map_Inr_nth:
  assumes "map f xs = map Inr ys" and "i < length ys"
  shows "f (xs ! i) = Inr (ys ! i)" and "length xs = length ys"
proof -
  from assms(1) show len: "length xs = length ys" by (metis length_map)
  from assms(1) have "map f xs ! i = map Inr ys ! i" by (rule arg_cong)
  with assms(2) len show "f (xs ! i) = Inr (ys ! i)" by simp
qed

lemma embedding_lookup_rows:
  assumes "embedding_lookup params ids = Inr emb"
  shows "list_all (list_all (\<lambda>v. v \<in> set params)) emb"
proof -
  define G :: "int \<Rightarrow> error + real list" where
    "G = (\<lambda>i. if 0 \<le> i \<and> i < int (length params) then Inr (params ! nat i) else Inl InvalidArgument)"
  from assms have "sequence (map (\<lambda>row. sequence (map G row)) ids) = Inr emb"
    unfolding embedding_lookup_def G_def .
  then have rows: "map (\<lambda>row. sequence (map G row)) ids = map Inr emb"
    by (rule iffD1 [OF sequence_Inr_iff])
  show ?thesis
    unfolding list_all_length
  proof (intro allI impI)
    fix r t assume r: "r < length emb" and t: "t < length (emb ! r)"
    from map_Inr_nth(1) [OF rows r] have "sequence (map G (ids ! r)) = Inr (emb ! r)" .
    then have cells: "map G (ids ! r) = map Inr (emb ! r)"
      by (rule iffD1 [OF sequence_Inr_iff])
    from map_Inr_nth(1) [OF cells t] have g: "G (ids ! r ! t) = Inr (emb ! r ! t)" .
    show "emb ! r ! t \<in> set params"
    proof (cases "0 \<le> ids ! r ! t \<and> ids ! r ! t < int (length params)")
      case True
      with g have "emb ! r ! t = params ! nat (ids ! r ! t)" by (simp add: G_def)
      moreover from True have "nat (ids ! r ! t) < length params" by linarith
      ultimately show ?thesis by simp
    next
      case False
      with g show ?thesis by (simp add: G_def)
    qed
  qed
qed

lemma length_pad_same:
  "length (pad_same kernel_size x) = (if x = [] then 0 else length x + (kernel_size - 1))"
  by (cases x) (simp_all add: Let_def)

lemma conv1d_example_length:
  "0 < kernel_size \<Longrightarrow> length (conv1d_example v filters kernel_size x) = length x"
  by (simp add: conv1d_example_def Let_def length_pad_same)

lemma conv1d_example_channels:
  "list_all (\<lambda>v. length v = filters) (conv1d_example v filters kernel_size x)"
  by (simp add: conv1d_example_def Let_def list_all_iff)

lemma conv1d_tokens:
  "0 < kernel_size \<Longrightarrow> map length (conv1d v inputs filters kernel_size) = map length inputs"
  by (simp add: conv1d_def conv1d_example_length)

lemma conv1d_channels:
  "list_all (list_all (\<lambda>v. length v = filters)) (conv1d v inputs filters kernel_size)"
  by (simp add: conv1d_def list_all_iff conv1d_example_channels [unfolded list_all_iff])

lemma relu_tokens: "map length (relu t) = map length t"
  by (simp add: relu_def)

lemma relu_channels:
  "list_all (list_all (\<lambda>v. length v = C)) t \<Longrightarrow> list_all (list_all (\<lambda>v. length v = C)) (relu t)"
  by (simp add: relu_def list_all_iff)

lemma conv_net_tokens:
  "0 < k \<Longrightarrow> map length (conv_net layers l units hs k relu) = map length units"
  by (induction hs arbitrary: l units) (simp_all add: relu_tokens conv1d_tokens)

lemma conv_net_channels:
  "list_all (list_all (\<lambda>v. length v = C)) units \<Longrightarrow>
   list_all (list_all (\<lambda>v. length v = last (C # hs))) (conv_net layers l units hs k relu)"
proof (induction hs arbitrary: l units C)
  case Nil
  then show ?case by simp
next
  case (Cons i hs)
  have "list_all (list_all (\<lambda>v. length v = i)) (relu (conv1d (layers l) units i k))"
    by (rule relu_channels) (rule conv1d_channels)
  from Cons.IH [OF this] show ?case by simp
qed

lemma dense_tokens: "map length (dense v inputs units) = map length inputs"
  by (simp add: dense_def)

lemma dense_channels: "list_all (list_all (\<lambda>v. length v = units)) (dense v inputs units)"
  by (simp add: dense_def list_all_iff)

lemma dropout_shape:
  assumes "list_all (list_all (\<lambda>v. length v = C)) x"
  shows "\<exists>y. dropout x keep_prob (length x, 1, C) rnd = Inr y
            \<and> map length y = map length x \<and> list_all (list_all (\<lambda>v. length v = C)) y"
proof -
  let ?y = "map (\<lambda>n. map (\<lambda>xt. map (\<lambda>c. xt ! c / keep_prob * real_of_int \<lfloor>keep_prob + rnd n 0 c\<rfloor>)
                                    [0..<C]) (x ! n)) [0..<length x]"
  have "map length ?y = map length x"
    by (rule nth_equalityI) simp_all
  moreover have "list_all (list_all (\<lambda>v. length v = C)) ?y"
    by (simp add: list_all_iff)
  ultimately show ?thesis
    using dropout_formula [OF assms, of keep_prob rnd] by blast
qed

lemma has_shape_iff:
  "has_shape N T C t \<longleftrightarrow>
     length t = N \<and> list_all (\<lambda>r. length r = T) t \<and> list_all (list_all (\<lambda>v. length v = C)) t"
  by (auto simp: has_shape_def list_all_iff)

lemma same_tokens:
  "map length a = map length b \<Longrightarrow>
   length a = length b \<and> list_all (\<lambda>r. length r = T) a = list_all (\<lambda>r. length r = T) b"
proof -
  assume eq: "map length a = map length b"
  then have "length a = length b" by (metis length_map)
  moreover have "list_all (\<lambda>r. length r = T) a = list_all (\<lambda>n. n = T) (map length a)"
    by (simp add: list_all_iff)
  moreover have "list_all (\<lambda>r. length r = T) b = list_all (\<lambda>n. n = T) (map length b)"
    by (simp add: list_all_iff)
  ultimately show ?thesis using eq by simp
qed

lemma channels_of_rows:
  assumes "list_all (list_all (\<lambda>v. v \<in> set params)) emb"
    and "list_all (\<lambda>r. length r = C) params"
  shows "list_all (list_all (\<lambda>v. length v = C)) emb"
  using assms by (auto simp: list_all_iff)

lemma logits_shape:
  assumes k: "0 < cnn_filter_width net"
    and w: "length (emb_mat w) = n_tokens net"
      "list_all (\<lambda>r. length r = token_emb_dim net) (emb_mat w)"
    and feed: "token_ph feed = Some tok_batch" "dropout_keep_ph feed = Some keep"
    and tok: "length tok_batch = N" "list_all (\<lambda>r. length r = T) tok_batch"
      "list_all (list_all (\<lambda>i. 0 \<le> i \<and> i < int (n_tokens net))) tok_batch"
  shows "\<exists>lg. logits net w feed rnd = Inr lg \<and> has_shape N T (n_tags net) lg"
proof -
  define emb where "emb = map (map (\<lambda>i. emb_mat w ! nat i)) tok_batch"
  have lookup: "get_embeddings (emb_mat w) tok_batch = Inr emb"
    unfolding get_embeddings_def emb_def
    by (rule embedding_lookup_in_range) (simp add: w(1) tok(3))
  have emb_tok: "map length emb = map length tok_batch" by (simp add: emb_def)
  have emb_ch: "list_all (list_all (\<lambda>v. length v = token_emb_dim net)) emb"
    by (rule channels_of_rows [OF embedding_lookup_rows w(2)])
       (rule lookup [unfolded get_embeddings_def])
  from dropout_shape [OF emb_ch, of keep "emb_noise rnd"]
  obtain emb' where d1: "dropout emb keep (length emb, 1, token_emb_dim net) (emb_noise rnd) = Inr emb'"
    and emb'_tok: "map length emb' = map length emb"
    and emb'_ch: "list_all (list_all (\<lambda>v. length v = token_emb_dim net)) emb'"
    by blast
  define units where
    "units = conv_net (conv_layers w) 0 emb' (n_hidden_list net) (cnn_filter_width net) relu"
  have units_tok: "map length units = map length emb'"
    unfolding units_def by (rule conv_net_tokens [OF k])
  have units_ch: "list_all (list_all (\<lambda>v. length v = last (token_emb_dim net # n_hidden_list net))) units"
    unfolding units_def by (rule conv_net_channels [OF emb'_ch])
  from dropout_shape [OF units_ch, of keep "units_noise rnd"]
  obtain units' where d2: "dropout units keep
        (length units, 1, last (token_emb_dim net # n_hidden_list net)) (units_noise rnd) = Inr units'"
    and units'_tok: "map length units' = map length units"
    by blast
  define lg where "lg = dense (dense_layer w) units' (n_tags net)"
  have run: "logits net w feed rnd = Inr lg"
    by (simp add: logits_def feed placeholder_def and_then_def lookup d1 d2
        units_def [symmetric] lg_def del: One_nat_def last.simps)
  have "map length lg = map length tok_batch"
    by (simp add: lg_def dense_tokens units'_tok units_tok emb'_tok emb_tok)
  from same_tokens [OF this, of T] tok(1,2)
  have "length lg = N" "list_all (\<lambda>r. length r = T) lg" by simp_all
  moreover have "list_all (list_all (\<lambda>v. length v = n_tags net)) lg"
    unfolding lg_def by (rule dense_channels)
  ultimately have "has_shape N T (n_tags net) lg" by (simp add: has_shape_iff)
  with run show ?thesis by blast
qed

text \<open>
  C5. The forward pass preserves the token dimension. For a network with a positive filter
  width and an embedding matrix of shape \<open>[n_tokens, token_emb_dim]\<close>, every token-id batch
  of shape \<open>[N, T]\<close> with ids in \<open>[0, n_tokens)\<close> and every keep probability give logits of
  shape \<open>[N, T, n_tags]\<close>. Each convolution with "same" padding followed by the rectified
  linear unit returns as many tokens in each row as it receives, and so does \<open>conv_net\<close>.
\<close>

theorem logits_preserve_token_dimension:
  assumes "0 < cnn_filter_width net"
    and "length (emb_mat w) = n_tokens net"
    and "list_all (\<lambda>r. length r = token_emb_dim net) (emb_mat w)"
    and "token_ph feed = Some tok_batch" and "dropout_keep_ph feed = Some keep"
    and "length tok_batch = N" and "list_all (\<lambda>r. length r = T) tok_batch"
    and "list_all (list_all (\<lambda>i. 0 \<le> i \<and> i < int (n_tokens net))) tok_batch"
  shows "(\<exists>lg. logits net w feed rnd = Inr lg \<and> has_shape N T (n_tags net) lg)
     \<and> map length (relu (conv1d v units i (cnn_filter_width net))) = map length units
     \<and> map length (conv_net layers l units (n_hidden_list net) (cnn_filter_width net) relu)
         = map length units"
  using logits_shape [OF assms] assms(1)
  by (simp add: relu_tokens conv1d_tokens conv_net_tokens)

text \<open>The second example network on a batch of two sentences padded to three tokens.\<close>

theorem logits_preserve_token_dimension_witness:
  "\<exists>lg. logits example_conv_net example_conv_variables
           (train_feed [[1, 0, 1], [1, 0, 0]] [[0, 1, 0], [1, 0, 0]] [[1, 1, 1], [1, 0, 0]]
              (1 / 2) (1 / 1000)) no_noise = Inr lg
        \<and> has_shape 2 3 2 lg"
  using logits_preserve_token_dimension
    [of example_conv_net example_conv_variables
        "train_feed [[1, 0, 1], [1, 0, 0]] [[0, 1, 0], [1, 0, 0]] [[1, 1, 1], [1, 0, 0]] (1 / 2) (1 / 1000)"
        "[[1, 0, 1], [1, 0, 0]]" "1 / 2" 2 3 no_noise]
  by (simp add: example_conv_net_def example_conv_variables_def train_feed_def)


lemma call_no_dropout:
  assumes rnd: "\<forall>i j k. 0 \<le> emb_noise rnd i j k \<and> emb_noise rnd i j k < 1
                  \<and> 0 \<le> units_noise rnd i j k \<and> units_noise rnd i j k < 1"
    and w: "list_all (\<lambda>r. length r = token_emb_dim net) (emb_mat (vars (sess net)))"
  shows "call net tok_batch mask_batch rnd
     = and_then (no_dropout_logits net (vars (sess net)) tok_batch) argmax"
proof (cases "get_embeddings (emb_mat (vars (sess net))) tok_batch")
  case (Inl e)
  then show ?thesis
    by (simp add: call_def predictions_def logits_def call_feed_def placeholder_def and_then_def
        no_dropout_logits_def)
next
  case (Inr emb)
  have emb_ch: "list_all (list_all (\<lambda>v. length v = token_emb_dim net)) emb"
    by (rule channels_of_rows [OF embedding_lookup_rows w])
       (rule Inr [unfolded get_embeddings_def])
  have d1: "dropout emb 1 (length emb, 1, token_emb_dim net) (emb_noise rnd) = Inr emb"
    by (rule dropout_keep_1 [OF emb_ch]) (simp add: rnd)
  define units where
    "units = conv_net (conv_layers (vars (sess net))) 0 emb (n_hidden_list net) (cnn_filter_width net) relu"
  have units_ch: "list_all (list_all (\<lambda>v. length v = last (token_emb_dim net # n_hidden_list net))) units"
    unfolding units_def by (rule conv_net_channels [OF emb_ch])
  have d2: "dropout units 1 (length units, 1, last (token_emb_dim net # n_hidden_list net))
      (units_noise rnd) = Inr units"
    by (rule dropout_keep_1 [OF units_ch]) (simp add: rnd)
  show ?thesis
    by (simp add: call_def predictions_def logits_def call_feed_def placeholder_def and_then_def
        no_dropout_logits_def Inr d1 d2 units_def [symmetric] del: One_nat_def last.simps)
qed

section \<open>Dropout at prediction and at training time\<close>

lemma loss_train_feed:
  "loss net w (train_feed tok_batch tag_batch mask_batch dropout_keep_prob lr) rnd =
     and_then (get_embeddings (emb_mat w) tok_batch) (\<lambda>emb.
     and_then (dropout emb dropout_keep_prob (length emb, 1, token_emb_dim net) (emb_noise rnd)) (\<lambda>emb'.
     let units = conv_net (conv_layers w) 0 emb' (n_hidden_list net) (cnn_filter_width net) relu in
     and_then (dropout units dropout_keep_prob
                 (length units, 1, last (token_emb_dim net # n_hidden_list net)) (units_noise rnd))
       (\<lambda>units'. masked_cross_entropy (dense (dense_layer w) units' (n_tags net)) tok_batch
                    (n_tags net) mask_batch)))"
  by (simp add: loss_def logits_def train_feed_def placeholder_def and_then_def Let_def
      del: One_nat_def last.simps split: sum.splits)

lemma loss_is_training_loss:
  "loss net w (train_feed tok_batch tag_batch mask_batch dropout_keep_prob lr) rnd
     = training_loss net tok_batch mask_batch dropout_keep_prob rnd w"
  unfolding training_loss_def by (rule loss_train_feed)

lemma train_on_batch_step:
  "train_on_batch gradients net tok_batch tag_batch mask_batch dropout_keep_prob lr rnd =
     (case training_loss net tok_batch mask_batch dropout_keep_prob rnd (vars (sess net)) of
        Inl e \<Rightarrow> Inl e
      | Inr l \<Rightarrow>
          Inr (net\<lparr>sess := apply_gradients AdamOptimizer
                 (gradients (training_loss net tok_batch mask_batch dropout_keep_prob rnd)
                    (vars (sess net))) (sess net)\<rparr>))"
proof -
  have f: "(\<lambda>w. loss net w (train_feed tok_batch tag_batch mask_batch dropout_keep_prob lr) rnd)
      = training_loss net tok_batch mask_batch dropout_keep_prob rnd"
    by (rule ext) (rule loss_is_training_loss)
  show ?thesis
    unfolding train_on_batch_def train_op_def f loss_is_training_loss
    by (simp split: sum.splits)
qed

lemma per_example_dropout_channels:
  "list_all (list_all (\<lambda>v. length v = C)) (per_example_dropout keep_prob draws C x)"
  by (simp add: per_example_dropout_def list_all_iff)

lemma training_loss_per_example:
  assumes w: "list_all (\<lambda>r. length r = token_emb_dim net) (emb_mat w)"
    and tok: "list_all (list_all (\<lambda>i. 0 \<le> i \<and> i < int (length (emb_mat w)))) tok_batch"
  shows "training_loss net tok_batch mask_batch keep rnd w =
     masked_cross_entropy
       (dense (dense_layer w)
          (per_example_dropout keep (units_noise rnd) (last (token_emb_dim net # n_hidden_list net))
             (conv_net (conv_layers w) 0
                (per_example_dropout keep (emb_noise rnd) (token_emb_dim net)
                   (map (map (\<lambda>i. emb_mat w ! nat i)) tok_batch))
                (n_hidden_list net) (cnn_filter_width net) relu))
          (n_tags net))
       tok_batch (n_tags net) mask_batch"
proof -
  define emb where "emb = map (map (\<lambda>i. emb_mat w ! nat i)) tok_batch"
  have lookup: "get_embeddings (emb_mat w) tok_batch = Inr emb"
    unfolding get_embeddings_def emb_def by (rule embedding_lookup_in_range [OF tok])
  have emb_ch: "list_all (list_all (\<lambda>v. length v = token_emb_dim net)) emb"
    by (rule channels_of_rows [OF embedding_lookup_rows w])
       (rule lookup [unfolded get_embeddings_def])
  define emb' where "emb' = per_example_dropout keep (emb_noise rnd) (token_emb_dim net) emb"
  have d1: "dropout emb keep (length emb, 1, token_emb_dim net) (emb_noise rnd) = Inr emb'"
    unfolding emb'_def per_example_dropout_def by (rule dropout_formula [OF emb_ch])
  have emb'_ch: "list_all (list_all (\<lambda>v. length v = token_emb_dim net)) emb'"
    unfolding emb'_def by (rule per_example_dropout_channels)
  define units where
    "units = conv_net (conv_layers w) 0 emb' (n_hidden_list net) (cnn_filter_width net) relu"
  have units_ch: "list_all (list_all (\<lambda>v. length v = last (token_emb_dim net # n_hidden_list net))) units"
    unfolding units_def by (rule conv_net_channels [OF emb'_ch])
  define units' where "units' = per_example_dropout keep (units_noise rnd)
      (last (token_emb_dim net # n_hidden_list net)) units"
  have d2: "dropout units keep (length units, 1, last (token_emb_dim net # n_hidden_list net))
      (units_noise rnd) = Inr units'"
    unfolding units'_def per_example_dropout_def by (rule dropout_formula [OF units_ch])
  have "training_loss net tok_batch mask_batch keep rnd w =
      masked_cross_entropy (dense (dense_layer w) units' (n_tags net)) tok_batch (n_tags net) mask_batch"
    by (simp add: training_loss_def and_then_def lookup d1 d2 units_def [symmetric]
        del: One_nat_def last.simps)
  then show ?thesis
    unfolding units'_def units_def emb'_def emb_def .
qed

text \<open>
  C8. Dropout is applied at training time only. For every noise with draws in \<open>[0, 1)\<close>
  (and an embedding matrix with rows of the embedding dimension), the prediction entry
  point returns the argmax of the forward pass without dropout, whatever the draws are:
  its keep probability is fixed to 1. The dropout operation on a tensor \<open>[N, T, C]\<close> with the
  noise shape \<open>[N, 1, C]\<close> and a keep probability that is not 0 multiplies the entry
  \<open>(n, t, c)\<close>, divided by the keep probability, by a factor that depends on the example \<open>n\<close>
  and the channel \<open>c\<close> and not on the token \<open>t\<close>. \<open>train_on_batch\<close> is rejected when the
  training loss with the caller's keep probability is, and otherwise replaces the session
  by Adam's step on the gradient of that loss; at the current variables and for ids in
  range, that loss is the masked cross-entropy of the projection of the convolutions'
  output, where the embeddings and the convolutions' output have gone through the
  per-example dropout with the caller's keep probability.
\<close>

theorem dropout_only_in_training:
  assumes "\<forall>i j k. 0 \<le> emb_noise rnd i j k \<and> emb_noise rnd i j k < 1
                  \<and> 0 \<le> units_noise rnd i j k \<and> units_noise rnd i j k < 1"
    and "list_all (\<lambda>r. length r = token_emb_dim net) (emb_mat (vars (sess net)))"
  shows "call net tok_batch mask_batch rnd
       = and_then (no_dropout_logits net (vars (sess net)) tok_batch) argmax
     \<and> (keep_prob \<noteq> 0 \<and> list_all (list_all (\<lambda>v. length v = C)) x \<longrightarrow>
          dropout x keep_prob (length x, 1, C) draws
            = Inr (map (\<lambda>n. map (\<lambda>xt. map (\<lambda>c. xt ! c / keep_prob
                                                * real_of_int \<lfloor>keep_prob + draws n 0 c\<rfloor>) [0..<C])
                              (x ! n)) [0..<length x]))
     \<and> (dropout_keep_prob \<noteq> 0 \<longrightarrow>
          train_on_batch gradients net tok_batch tag_batch mask_batch dropout_keep_prob lr rnd' =
            (case training_loss net tok_batch mask_batch dropout_keep_prob rnd' (vars (sess net)) of
               Inl e \<Rightarrow> Inl e
             | Inr l \<Rightarrow>
                 Inr (net\<lparr>sess := apply_gradients AdamOptimizer
                        (gradients (training_loss net tok_batch mask_batch dropout_keep_prob rnd')
                           (vars (sess net))) (sess net)\<rparr>)))
     \<and> (dropout_keep_prob \<noteq> 0
          \<and> list_all (list_all (\<lambda>i. 0 \<le> i \<and> i < int (length (emb_mat (vars (sess net))))))
                tok_batch \<longrightarrow>
          training_loss net tok_batch mask_batch dropout_keep_prob rnd' (vars (sess net)) =
            masked_cross_entropy
              (dense (dense_layer (vars (sess net)))
                 (per_example_dropout dropout_keep_prob (units_noise rnd')
                    (last (token_emb_dim net # n_hidden_list net))
                    (conv_net (conv_layers (vars (sess net))) 0
                       (per_example_dropout dropout_keep_prob (emb_noise rnd') (token_emb_dim net)
                          (map (map (\<lambda>i. emb_mat (vars (sess net)) ! nat i)) tok_batch))
                       (n_hidden_list net) (cnn_filter_width net) relu))
                 (n_tags net))
              tok_batch (n_tags net) mask_batch)"
  using call_no_dropout [OF assms] dropout_formula [of C x keep_prob draws]
    train_on_batch_step [of gradients net tok_batch tag_batch mask_batch dropout_keep_prob lr rnd']
    training_loss_per_example [OF assms(2), of tok_batch mask_batch dropout_keep_prob rnd']
  by blast

lemma upt3: "[0..<3] = [0, Suc 0, 2]"
  by (simp add: upt_rec numeral_3_eq_3 numeral_2_eq_2)

lemma conv_ex:
  "conv1d_example \<lparr>conv_kernel = [[[1, 0]], [[0, 1]], [[1, 1]]], conv_bias = [0, 0]\<rparr> 2 3
     [[1], [2]] = [[2, 3], [1, 2]]"
  by (simp add: conv1d_example_def Let_def upt2 upt3 upt_rec [of 0 "Suc 0"] numeral_2_eq_2 nth_append)

lemma example_conv_no_dropout_logits:
  "no_dropout_logits example_conv_net example_conv_variables [[0, 1]] = Inr [[[2, 3], [1, 2]]]"
  by (simp add: no_dropout_logits_def and_then_def example_conv_net_def relu_def conv1d_def conv_ex
      example_conv_variables_def get_embeddings_def embedding_lookup_def dense_def upt2)

lemma conv_ex2:
  "conv1d_example \<lparr>conv_kernel = [[[1, 0]], [[0, 1]], [[1, 1]]], conv_bias = [0, 0]\<rparr> 2 3
     [[2], [4]] = [[4, 6], [2, 4]]"
  by (simp add: conv1d_example_def Let_def upt2 upt3 upt_rec [of 0 "Suc 0"] numeral_2_eq_2 nth_append)

lemma example_training_logits:
  "dense (dense_layer example_conv_variables)
     (per_example_dropout (1 / 2) (units_noise example_noise) (last [1, 2])
        (conv_net (conv_layers example_conv_variables) 0
           (per_example_dropout (1 / 2) (emb_noise example_noise) 1
              (map (map (\<lambda>i. emb_mat example_conv_variables ! nat i)) [[0, 1]]))
           [2] 3 relu)) 2 = [[[8, 0], [4, 0]]]"
  by (simp add: per_example_dropout_def example_noise_def example_conv_variables_def
      conv1d_def conv_ex2 relu_def dense_def upt2 upt_rec [of 0 "Suc 0"])

lemma example_training_loss_value:
  "masked_cross_entropy [[[8, 0], [4, 0]]] [[0, 1]] 2 [[1, 1]]
     = Inr (Num ((ln (exp 8 + 1) - 8 + ln (exp 4 + 1)) / 2))"
  by (simp add: masked_cross_entropy_def one_hot_def one_hot_vec_def
      softmax_cross_entropy_with_logits_v2_def multiply_def broadcast_def reduce_mean_def
      cross_entropy_def log_softmax_def upt2)

text \<open>
  The second example network on one sentence of two tokens, with noise that is not zero.
  The prediction does not see it. A dropout with keep probability one half on one example
  of two tokens and two channels keeps the first channel and drops the second at both
  tokens. A training step with keep probability one half doubles the embeddings, drops
  the second channel of the convolutions' output and doubles the first, so that its loss
  is the one of the logits \<open>[8, 0]\<close> and \<open>[4, 0]\<close>; the step is Adam's.
\<close>

theorem dropout_only_in_training_witness:
  "call example_conv_net [[0, 1]] [[1, 1]] example_noise = Inr [[1, 1]]
   \<and> dropout [[[2, 4], [6, 8]]] (1 / 2) (1, 1, 2) (\<lambda>i j k. if k = 0 then 1 / 2 else 1 / 4)
       = Inr [[[4, 0], [12, 0]]]
   \<and> training_loss example_conv_net [[0, 1]] [[1, 1]] (1 / 2) example_noise example_conv_variables
       = Inr (Num ((ln (exp 8 + 1) - 8 + ln (exp 4 + 1)) / 2))
   \<and> train_on_batch (\<lambda>L w. w) example_conv_net [[0, 1]] [[1, 0]] [[1, 1]] (1 / 2) (1 / 1000)
         example_noise
       = Inr (example_conv_net\<lparr>sess :=
           apply_gradients AdamOptimizer example_conv_variables (sess example_conv_net)\<rparr>)"
proof -
  note t = dropout_only_in_training
    [where rnd = example_noise and net = example_conv_net and tok_batch = "[[0, 1]]"
       and mask_batch = "[[1, 1]]" and x = "[[[2, 4], [6, 8]]]" and C = 2 and keep_prob = "1 / 2"
       and draws = "\<lambda>i j k. if k = 0 then 1 / 2 else 1 / 4" and dropout_keep_prob = "1 / 2"
       and rnd' = example_noise and gradients = "\<lambda>L w. w" and tag_batch = "[[1, 0]]"
       and lr = "1 / 1000"]
  have hyps: "\<forall>i j k. 0 \<le> emb_noise example_noise i j k \<and> emb_noise example_noise i j k < 1
                  \<and> 0 \<le> units_noise example_noise i j k \<and> units_noise example_noise i j k < 1"
    "list_all (\<lambda>r. length r = token_emb_dim example_conv_net) (emb_mat (vars (sess example_conv_net)))"
    by (simp_all add: example_noise_def example_conv_net_def example_conv_variables_def)
  have v: "vars (sess example_conv_net) = example_conv_variables"
    "n_tags example_conv_net = 2" "token_emb_dim example_conv_net = 1"
    "n_hidden_list example_conv_net = [2]" "cnn_filter_width example_conv_net = 3"
    by (simp_all add: example_conv_net_def)
  have "call example_conv_net [[0, 1]] [[1, 1]] example_noise
      = and_then (no_dropout_logits example_conv_net (vars (sess example_conv_net)) [[0, 1]]) argmax"
    using t [OF hyps] by blast
  then have a: "call example_conv_net [[0, 1]] [[1, 1]] example_noise = Inr [[1, 1]]"
    by (simp add: v example_conv_no_dropout_logits and_then_def argmax_def argmax_vec_def)
  have "dropout [[[2, 4], [6, 8]]] (1 / 2) (length [[[2 :: real, 4], [6, 8]]], 1, 2)
          (\<lambda>i j k. if k = 0 then 1 / 2 else 1 / 4)
       = Inr [[[4, 0], [12, 0]]]"
    using t [OF hyps, THEN conjunct2, THEN conjunct1] by (simp add: upt2)
  then have b: "dropout [[[2, 4], [6, 8]]] (1 / 2) (1, 1, 2) (\<lambda>i j k. if k = 0 then 1 / 2 else 1 / 4)
       = Inr [[[4, 0], [12, 0]]]"
    by simp
  have ids: "list_all (list_all (\<lambda>i. 0 \<le> i \<and> i < int (length (emb_mat (vars (sess example_conv_net))))))
      [[0, 1]]"
    by (simp add: v example_conv_variables_def)
  have "training_loss example_conv_net [[0, 1]] [[1, 1]] (1 / 2) example_noise
        (vars (sess example_conv_net)) =
      masked_cross_entropy
        (dense (dense_layer (vars (sess example_conv_net)))
           (per_example_dropout (1 / 2) (units_noise example_noise)
              (last (token_emb_dim example_conv_net # n_hidden_list example_conv_net))
              (conv_net (conv_layers (vars (sess example_conv_net))) 0
                 (per_example_dropout (1 / 2) (emb_noise example_noise)
                    (token_emb_dim example_conv_net)
                    (map (map (\<lambda>i. emb_mat (vars (sess example_conv_net)) ! nat i)) [[0, 1]]))
                 (n_hidden_list example_conv_net) (cnn_filter_width example_conv_net) relu))
           (n_tags example_conv_net))
        [[0, 1]] (n_tags example_conv_net) [[1, 1]]"
    using t [OF hyps, THEN conjunct2, THEN conjunct2, THEN conjunct2] ids by simp
  then have c: "training_loss example_conv_net [[0, 1]] [[1, 1]] (1 / 2) example_noise
        example_conv_variables
       = Inr (Num ((ln (exp 8 + 1) - 8 + ln (exp 4 + 1)) / 2))"
    by (simp only: v example_training_logits example_training_loss_value)
  have d: "train_on_batch (\<lambda>L w. w) example_conv_net [[0, 1]] [[1, 0]] [[1, 1]] (1 / 2) (1 / 1000)
         example_noise
       = Inr (example_conv_net\<lparr>sess :=
           apply_gradients AdamOptimizer example_conv_variables (sess example_conv_net)\<rparr>)"
    using t [OF hyps, THEN conjunct2, THEN conjunct2, THEN conjunct1]
    by (simp add: v c)
  from a b c d show ?thesis by blast
qed

section \<open>What the training step reads\<close>

lemma example_logits:
  "logits example_net (example_variables 1) (train_feed [[0]] [[1]] [[1]] 1 lr) no_noise
     = Inr [[[0, 1]]]"
  by (simp add: logits_def train_feed_def placeholder_def and_then_def example_net_def no_noise_def
      example_variables_def get_embeddings_def embedding_lookup_def dropout_def random_uniform_def
      multiply3_def broadcast_def dense_def upt2)

lemma ce0: "cross_entropy (one_hot_vec 0 2) [0, 1] = ln (1 + exp 1)"
  by (simp add: cross_entropy_def one_hot_vec_def log_softmax_def upt2)

lemma ce1: "cross_entropy (one_hot_vec 1 2) [0, 1] = ln (1 + exp 1) - 1"
  by (simp add: cross_entropy_def one_hot_vec_def log_softmax_def upt2)

lemma mce_single:
  "masked_cross_entropy [[[0, 1]]] [[i]] 2 [[1]] = Inr (Num (cross_entropy (one_hot_vec i 2) [0, 1]))"
  by (simp add: masked_cross_entropy_def one_hot_def one_hot_vec_def
      softmax_cross_entropy_with_logits_v2_def multiply_def broadcast_def reduce_mean_def)

text \<open>
  C1, on the code. The loss of \<open>__init__\<close> is the masked cross-entropy of the logits against
  the token ids in \<open>token_ph\<close>, not against the tag ids in \<open>y_ph\<close>. On the first example
  network, with the token 0 tagged 1 and logits \<open>[0, 1]\<close>, the loss that is minimized is
  \<open>ln (1 + e)\<close>, the cross-entropy against the label 0; the masked cross-entropy of the same
  logits against the tag batch is \<open>ln (1 + e) - 1\<close>.
\<close>

theorem loss_reads_token_ids:
  "loss example_net (vars (sess example_net)) (train_feed [[0]] [[1]] [[1]] 1 (1 / 1000)) no_noise
     = Inr (Num (ln (1 + exp 1)))
   \<and> and_then (logits example_net (vars (sess example_net))
                  (train_feed [[0]] [[1]] [[1]] 1 (1 / 1000)) no_noise)
         (\<lambda>lg. masked_cross_entropy lg [[1]] (n_tags example_net) [[1]])
     = Inr (Num (ln (1 + exp 1) - 1))
   \<and> loss net w (train_feed tok_batch tag_batch mask_batch dropout_keep_prob lr) rnd
     = and_then (logits net w (train_feed tok_batch tag_batch mask_batch dropout_keep_prob lr) rnd)
         (\<lambda>lg. masked_cross_entropy lg tok_batch (n_tags net) mask_batch)"
proof -
  have v: "vars (sess example_net) = example_variables 1" "n_tags example_net = 2"
    by (simp_all add: example_net_def)
  have "loss example_net (example_variables 1) (train_feed [[0]] [[1]] [[1]] 1 (1 / 1000)) no_noise
      = masked_cross_entropy [[[0, 1]]] [[0]] 2 [[1]]"
    by (simp add: loss_def example_logits and_then_def)
       (simp add: train_feed_def placeholder_def example_net_def)
  moreover have "loss net w (train_feed tok_batch tag_batch mask_batch dropout_keep_prob lr) rnd
     = and_then (logits net w (train_feed tok_batch tag_batch mask_batch dropout_keep_prob lr) rnd)
         (\<lambda>lg. masked_cross_entropy lg tok_batch (n_tags net) mask_batch)"
    by (simp add: loss_def train_feed_def placeholder_def and_then_def)
  ultimately show ?thesis
    by (simp add: v example_logits and_then_def mce_single ce0 ce1)
qed

lemma loss_unread_placeholders:
  "loss net w (train_feed tok_batch tag_batch mask_batch dropout_keep_prob lr) rnd
     = loss net w (train_feed tok_batch tag_batch' mask_batch dropout_keep_prob lr') rnd"
  by (simp only: loss_train_feed)

lemma train_op_unread_placeholders:
  "train_op gradients net (train_feed tok_batch tag_batch mask_batch dropout_keep_prob lr) rnd
     = train_op gradients net (train_feed tok_batch tag_batch' mask_batch dropout_keep_prob lr') rnd"
proof -
  have "(\<lambda>w. loss net w (train_feed tok_batch tag_batch mask_batch dropout_keep_prob lr) rnd)
      = (\<lambda>w. loss net w (train_feed tok_batch tag_batch' mask_batch dropout_keep_prob lr') rnd)"
    by (rule ext) (rule loss_unread_placeholders)
  moreover have "loss net (vars (sess net))
        (train_feed tok_batch tag_batch mask_batch dropout_keep_prob lr) rnd
      = loss net (vars (sess net))
        (train_feed tok_batch tag_batch' mask_batch dropout_keep_prob lr') rnd"
    by (rule loss_unread_placeholders)
  ultimately show ?thesis
    by (simp only: train_op_def)
qed

text \<open>
  C10. The tag batch has no influence on the weight update: two calls of \<open>train_on_batch\<close>
  on the same object that agree on the token batch, the mask, the keep probability, the
  learning rate and the noise return the same object (or are both rejected), whatever
  their tag batches are.
\<close>

theorem train_on_batch_ignores_tag_batch:
  "train_on_batch gradients net tok_batch tag_batch mask_batch dropout_keep_prob lr rnd
     = train_on_batch gradients net tok_batch tag_batch' mask_batch dropout_keep_prob lr rnd"
  unfolding train_on_batch_def
  by (simp only: train_op_unread_placeholders [of _ _ _ tag_batch _ _ lr _ tag_batch' lr])

text \<open>
  C2, on the code. The learning rate passed to \<open>train_on_batch\<close> has no influence on the
  weight update: \<open>learning_rate_ph\<close> is fed and never read, and the optimizer steps with its
  default rate 0.001.
\<close>

theorem train_on_batch_ignores_learning_rate:
  "train_on_batch gradients net tok_batch tag_batch mask_batch dropout_keep_prob lr rnd
     = train_on_batch gradients net tok_batch tag_batch mask_batch dropout_keep_prob lr' rnd
   \<and> learning_rate AdamOptimizer = 1 / 1000"
proof
  show "train_on_batch gradients net tok_batch tag_batch mask_batch dropout_keep_prob lr rnd
     = train_on_batch gradients net tok_batch tag_batch mask_batch dropout_keep_prob lr' rnd"
    unfolding train_on_batch_def
    by (simp only: train_op_unread_placeholders [of _ _ _ tag_batch _ _ lr _ tag_batch lr'])
  show "learning_rate AdamOptimizer = 1 / 1000"
    by (simp add: AdamOptimizer_def)
qed

section \<open>The initializer of the embedding matrix\<close>

text \<open>
  C3, on the code. The initializer of the embedding matrix has the standard deviation
  \<open>1 / emb_dim\<close>, hence the variance \<open>1 / emb_dim\<^sup>2\<close>. For the vocabulary size 5 and the
  embedding dimension 100 of the notebook's check, the standard deviation is \<open>1 / 100\<close> and
  the variance is \<open>1 / 10000\<close>, not \<open>1 / 100\<close>; the standard deviation is not
  \<open>sqrt (1 / 100)\<close>.
\<close>

theorem emb_mat_initializer_variance:
  "emb_mat_initializer 5 100 = Inr \<lparr>shape = (5, 100), mean = 0, stddev = 1 / 100\<rparr>
   \<and> variance \<lparr>shape = (5, 100), mean = 0, stddev = 1 / 100\<rparr> = 1 / 10000
   \<and> variance \<lparr>shape = (5, 100), mean = 0, stddev = 1 / 100\<rparr> \<noteq> 1 / 100
   \<and> stddev \<lparr>shape = (5, 100), mean = 0, stddev = 1 / 100\<rparr> \<noteq> sqrt (1 / 100)"
proof -
  have "sqrt (1 / 100) = 1 / 10"
    by (rule real_sqrt_unique) (simp_all add: power2_eq_square)
  then show ?thesis
    by (simp add: emb_mat_initializer_def variance_def power_divide)
qed

end
